theory Spec2Isabelle
  imports Main "HOL-Library.Char_ord" "HOL-Library.List_Lexorder"
begin

section \<open>Errors and log output\<close>

text \<open>
  Go errors as values. \<open>New\<close> is \<^verbatim>\<open>errors.New\<close>, \<open>Errorf\<close> is
  \<^verbatim>\<open>fmt.Errorf\<close> without \<^verbatim>\<open>%w\<close> (format string and arguments), \<open>Wrap\<close> is
  \<^verbatim>\<open>fmt.Errorf\<close> with a trailing \<^verbatim>\<open>%w\<close> (format string, the other arguments, the
  wrapped error), \<open>Joined\<close> is the result of \<^verbatim>\<open>errors.Join\<close>.
  \<open>ErrAlreadyRestacked\<close> is the sentinel \<^verbatim>\<open>gs.ErrAlreadyRestacked\<close>, and
  \<open>ErrTooLong\<close> is \<^verbatim>\<open>bufio.ErrTooLong\<close>.
\<close>

datatype error =
    ErrAlreadyRestacked
  | ErrTooLong
  | New string
  | Errorf string "string list"
  | Wrap string "string list" error
  | Joined "error list"

text \<open>\<^verbatim>\<open>errors.Is\<close>: the error itself, or any error it wraps, is the target.\<close>

fun errors_Is :: "error \<Rightarrow> error \<Rightarrow> bool" where
  "errors_Is (Wrap f as e) target = (Wrap f as e = target \<or> errors_Is e target)"
| "errors_Is (Joined es) target = (Joined es = target \<or> (\<exists>e \<in> set es. errors_Is e target))"
| "errors_Is e target = (e = target)"

text \<open>\<^verbatim>\<open>errors.Join\<close>: nil arguments are dropped; nil when nothing is left.\<close>

definition errors_Join :: "error option list \<Rightarrow> error option" where
  "errors_Join es =
     (case List.map_filter id es of [] \<Rightarrow> None | e # es' \<Rightarrow> Some (Joined (e # es')))"

text \<open>A call of \<^verbatim>\<open>log.Infof\<close>: the format string and its arguments.\<close>

datatype log_entry = Infof string "string list"

section \<open>Collaborators\<close>

text \<open>
  The commands talk to the repository, the branch store, the stack service, the
  file system and the editor. None of these is part of the commands' source, so each
  is a parameter: a function on the state it reads or changes. \<open>'r\<close> is the state of
  the repository together with its branch store; \<open>fs\<close> holds the files of the
  temporary directory, by name. The repository commands act on the repository only, the
  file operations and the editor on the files only.
\<close>

type_synonym fs = "string \<rightharpoonup> string"

record RestackResponse =
  Base :: string

record 'r deps =
  git_Open :: "'r \<Rightarrow> error option"
  ensureStore :: "'r \<Rightarrow> 'r \<times> error option"
  CurrentBranch :: "'r \<Rightarrow> error + string"
  Trunk :: "'r \<Rightarrow> string"
  ListUpstack :: "'r \<Rightarrow> string \<Rightarrow> error + string list"
  ListDownstack :: "'r \<Rightarrow> string \<Rightarrow> error + string list"
  Restack :: "'r \<Rightarrow> string \<Rightarrow> 'r \<times> (error + RestackResponse)"
  Checkout :: "'r \<Rightarrow> string \<Rightarrow> 'r \<times> error option"
  branchOnto :: "'r \<Rightarrow> string \<Rightarrow> string \<Rightarrow> 'r \<times> error option"
  branchCheckout :: "'r \<Rightarrow> string \<Rightarrow> 'r \<times> error option"
  os_CreateTemp :: "fs \<Rightarrow> error + string"
  file_Write :: "string \<Rightarrow> string \<Rightarrow> fs \<Rightarrow> fs \<times> error option"
  file_Close :: "string \<Rightarrow> fs \<Rightarrow> error option"
  exec_Run :: "string \<Rightarrow> string \<Rightarrow> fs \<Rightarrow> fs \<times> error option"

section \<open>upstack restack\<close>

text \<open>
  The loop of \<^verbatim>\<open>upstackRestackCmd.Run\<close> over the upstack branches. The state is the
  repository and the messages logged so far; the result carries the error that ended the
  loop, if any.
\<close>

fun restack_loop ::
  "'r deps \<Rightarrow> string \<Rightarrow> 'r \<Rightarrow> log_entry list \<Rightarrow> string list \<Rightarrow> 'r \<times> log_entry list \<times> error option"
where
  "restack_loop d currentBranch r lg [] = (r, lg, None)"
| "restack_loop d currentBranch r lg (upstack # rest) =
     (if upstack = Trunk d r then restack_loop d currentBranch r lg rest
      else case Restack d r upstack of
        (r', Inl err) \<Rightarrow>
          if errors_Is err ErrAlreadyRestacked
          then restack_loop d currentBranch r'
                 (if upstack \<noteq> currentBranch
                  then lg @ [Infof ''%v: branch does not need to be restacked.'' [upstack]]
                  else lg) rest
          else (r', lg, Some (Wrap ''restack branch: %w'' [] err))
      | (r', Inr res) \<Rightarrow>
          restack_loop d currentBranch r'
            (lg @ [Infof ''%v: restacked on %v'' [upstack, Base res]]) rest)"

definition upstackRestackCmd_Run :: "'r deps \<Rightarrow> 'r \<Rightarrow> 'r \<times> log_entry list \<times> error option" where
  "upstackRestackCmd_Run d r =
     (case git_Open d r of
        Some err \<Rightarrow> (r, [], Some (Wrap ''open repository: %w'' [] err))
      | None \<Rightarrow>
     (case ensureStore d r of
        (r1, Some err) \<Rightarrow> (r1, [], Some err)
      | (r1, None) \<Rightarrow>
     (case CurrentBranch d r1 of
        Inl err \<Rightarrow> (r1, [], Some (Wrap ''get current branch: %w'' [] err))
      | Inr currentBranch \<Rightarrow>
     (case ListUpstack d r1 currentBranch of
        Inl err \<Rightarrow> (r1, [], Some (Wrap ''get upstack branches: %w'' [] err))
      | Inr upstacks \<Rightarrow>
     (case restack_loop d currentBranch r1 [] upstacks of
        (r2, lg, Some err) \<Rightarrow> (r2, lg, Some err)
      | (r2, lg, None) \<Rightarrow>
     (case Checkout d r2 currentBranch of
        (r3, Some err) \<Rightarrow> (r3, lg, Some (Wrap ''checkout branch %v: %w'' [currentBranch] err))
      | (r3, None) \<Rightarrow> (r3, lg, None)))))))"

section \<open>Reading the edited document\<close>

subsection \<open>\<^verbatim>\<open>bytes.TrimSpace\<close>\<close>

text \<open>
  Strings are byte strings, as Go's are. \<^verbatim>\<open>bytes.TrimSpace\<close> removes the leading and
  the trailing white space runes of a UTF-8 byte string, white space as defined by
  \<^verbatim>\<open>unicode.IsSpace\<close>: U+0009 to U+000D, U+0020, U+0085, U+00A0, U+1680, U+2000 to
  U+200A, U+2028, U+2029, U+202F, U+205F and U+3000. \<open>space_runes\<close> lists their UTF-8
  encodings. A rune decodes to one of them exactly when the bytes at that place are its
  encoding, so trimming removes these byte sequences from the front, then from the back.
\<close>

definition space_runes :: "string list" where
  "space_runes =
     [[CHR 0x09], [CHR 0x0A], [CHR 0x0B], [CHR 0x0C], [CHR 0x0D], [CHR 0x20],
      [CHR 0xC2, CHR 0x85], [CHR 0xC2, CHR 0xA0],
      [CHR 0xE1, CHR 0x9A, CHR 0x80],
      [CHR 0xE2, CHR 0x80, CHR 0x80], [CHR 0xE2, CHR 0x80, CHR 0x81],
      [CHR 0xE2, CHR 0x80, CHR 0x82], [CHR 0xE2, CHR 0x80, CHR 0x83],
      [CHR 0xE2, CHR 0x80, CHR 0x84], [CHR 0xE2, CHR 0x80, CHR 0x85],
      [CHR 0xE2, CHR 0x80, CHR 0x86], [CHR 0xE2, CHR 0x80, CHR 0x87],
      [CHR 0xE2, CHR 0x80, CHR 0x88], [CHR 0xE2, CHR 0x80, CHR 0x89],
      [CHR 0xE2, CHR 0x80, CHR 0x8A],
      [CHR 0xE2, CHR 0x80, CHR 0xA8], [CHR 0xE2, CHR 0x80, CHR 0xA9],
      [CHR 0xE2, CHR 0x80, CHR 0xAF],
      [CHR 0xE2, CHR 0x81, CHR 0x9F],
      [CHR 0xE3, CHR 0x80, CHR 0x80]]"

text \<open>The number of bytes of the white space rune that \<open>s\<close> starts with; 0 when it
  starts with none.\<close>

definition space_width :: "string list \<Rightarrow> string \<Rightarrow> nat" where
  "space_width runes s =
     (case find (\<lambda>e. e \<noteq> [] \<and> take (length e) s = e) runes of
        None \<Rightarrow> 0
      | Some e \<Rightarrow> length e)"

function trim_runes :: "string list \<Rightarrow> string \<Rightarrow> string" where
  "trim_runes runes s =
     (if space_width runes s = 0 then s
      else trim_runes runes (drop (space_width runes s) s))"
  by pat_completeness auto
termination
proof (relation "measure (\<lambda>(runes, s). length s)")
  show "wf (measure (\<lambda>(runes, s). length s))" by simp
next
  fix runes :: "string list" and s :: string
  assume "space_width runes s \<noteq> 0"
  moreover have "space_width runes s \<le> length s"
    by (auto simp: space_width_def find_Some_iff split: option.splits)
       (metis length_take min.cobounded1)
  ultimately show
    "((runes, drop (space_width runes s) s), (runes, s)) \<in> measure (\<lambda>(runes, s). length s)"
    by simp
qed

declare trim_runes.simps [simp del]

definition TrimLeftSpace :: "string \<Rightarrow> string" where
  "TrimLeftSpace s = trim_runes space_runes s"

definition TrimRightSpace :: "string \<Rightarrow> string" where
  "TrimRightSpace s = rev (trim_runes (map rev space_runes) (rev s))"

definition TrimSpace :: "string \<Rightarrow> string" where
  "TrimSpace s = TrimRightSpace (TrimLeftSpace s)"

subsection \<open>\<^verbatim>\<open>bufio.Scanner\<close> with the default split function\<close>

text \<open>
  \<^verbatim>\<open>bufio.ScanLines\<close> cuts the input at each newline; a last line without a newline is
  a line when it is not empty. One trailing carriage return is dropped from each line.
\<close>

fun split_lines :: "string \<Rightarrow> string \<Rightarrow> string list" where
  "split_lines cur [] = (if cur = [] then [] else [cur])"
| "split_lines cur (c # cs) =
     (if c = CHR 0x0A then cur # split_lines [] cs else split_lines (cur @ [c]) cs)"

definition dropCR :: "string \<Rightarrow> string" where
  "dropCR data = (if data \<noteq> [] \<and> last data = CHR 0x0D then butlast data else data)"

text \<open>
  The scanner's buffer holds at most \<^verbatim>\<open>bufio.MaxScanTokenSize\<close> bytes: a line of that
  many bytes or more (its newline not counted) stops the scan with
  \<^verbatim>\<open>bufio.ErrTooLong\<close>, after the lines before it have been delivered.
  \<open>Scanner_tokens\<close> gives the lines that \<^verbatim>\<open>scanner.Scan\<close> delivers, in order, and
  \<^verbatim>\<open>scanner.Err()\<close>.
\<close>

definition MaxScanTokenSize :: nat where
  "MaxScanTokenSize = 64 * 1024"

definition fits :: "string \<Rightarrow> bool" where
  "fits l \<longleftrightarrow> length l < MaxScanTokenSize"

definition Scanner_tokens :: "string \<Rightarrow> string list \<times> error option" where
  "Scanner_tokens data =
     (let ls = split_lines [] data
      in (map dropCR (takeWhile fits ls),
          if list_all fits ls then None else Some ErrTooLong))"

text \<open>\<^verbatim>\<open>os.Open\<close> followed by reading the file: its content, or an error when there
  is no such file.\<close>

definition os_Open :: "fs \<Rightarrow> string \<Rightarrow> error + string" where
  "os_Open files name =
     (case files name of
        None \<Rightarrow> Inl (Errorf ''open %s: no such file or directory'' [name])
      | Some content \<Rightarrow> Inr content)"

section \<open>downstack edit\<close>

record downstackEditCmd =
  Editor :: string
  Name :: string

text \<open>How a run of the command ends: it returns an error or nil, or it panics.\<close>

datatype outcome = Return "error option" | Panic string

text \<open>
  Modelled from the spec: the assertions \<^verbatim>\<open>must.NotBeEmptyf\<close> and \<^verbatim>\<open>must.BeEqualf\<close>
  of the package \<^verbatim>\<open>internal/must\<close>, whose source is not part of the files at hand:
  the chain must not be empty and must start with the leaf. Each gives the message of
  its panic when it fires.
\<close>

definition must_NotBeEmptyf :: "'a list \<Rightarrow> string \<Rightarrow> string option" where
  "must_NotBeEmptyf xs msg = (if xs = [] then Some msg else None)"

definition must_BeEqualf :: "'a \<Rightarrow> 'a \<Rightarrow> string \<Rightarrow> string option" where
  "must_BeEqualf a b msg = (if a = b then None else Some msg)"

definition editFooter :: string where
  "editFooter =
     ''\<newline>'' @
     ''# Edit the order of branches by modifying the list above.\<newline>'' @
     ''# The branch at the bottom of the list will be merged into trunk first.\<newline>'' @
     ''# Branches above that will be stacked on top of it in the order they appear.\<newline>'' @
     ''# Branches deleted from the list will not be modified.\<newline>'' @
     ''#\<newline>'' @
     ''# Save and quit the editor to apply the changes.\<newline>'' @
     ''# Delete all lines in the editor to abort the operation.\<newline>''"

text \<open>The loop of \<^verbatim>\<open>createEditFile\<close>: one \<^verbatim>\<open>fmt.Fprintln\<close> for each branch.\<close>

fun write_branches :: "'r deps \<Rightarrow> string \<Rightarrow> fs \<Rightarrow> string list \<Rightarrow> fs \<times> error option" where
  "write_branches d file files [] = (files, None)"
| "write_branches d file files (branch # rest) =
     (case file_Write d file (branch @ ''\<newline>'') files of
        (files', Some err) \<Rightarrow> (files', Some (Wrap ''write branc: %w'' [] err))
      | (files', None) \<Rightarrow> write_branches d file files' rest)"

text \<open>
  \<^verbatim>\<open>createEditFile\<close> returns the name of the file and an error. The deferred function
  joins the error of \<^verbatim>\<open>file.Close\<close> to the error of every return that comes after
  \<^verbatim>\<open>os.CreateTemp\<close> has succeeded. No path removes the file.
\<close>

definition createEditFile :: "'r deps \<Rightarrow> fs \<Rightarrow> string list \<Rightarrow> fs \<times> string \<times> error option" where
  "createEditFile d files branches =
     (case os_CreateTemp d files of
        Inl err \<Rightarrow> (files, [], Some (Wrap ''create temporary file: %w'' [] err))
      | Inr file \<Rightarrow>
     (case write_branches d file (files(file \<mapsto> [])) branches of
        (files1, Some err) \<Rightarrow>
          (files1, [], errors_Join [Some err, file_Close d file files1])
      | (files1, None) \<Rightarrow>
     (case file_Write d file editFooter files1 of
        (files2, Some err) \<Rightarrow>
          (files2, [], errors_Join [Some (Wrap ''write footer: %w'' [] err), file_Close d file files2])
      | (files2, None) \<Rightarrow>
          (files2, file, errors_Join [None, file_Close d file files2]))))"

text \<open>
  The loop over the lines of the edited file. \<open>originalBranches\<close> is the set of names
  still allowed, \<open>newOrder\<close> the names collected so far.
\<close>

fun parse_lines :: "string set \<Rightarrow> string list \<Rightarrow> string list \<Rightarrow> error + string list" where
  "parse_lines originalBranches newOrder [] = Inr newOrder"
| "parse_lines originalBranches newOrder (line # rest) =
     (let bs = TrimSpace line in
      if length bs = 0 \<or> hd bs = CHR ''#'' then parse_lines originalBranches newOrder rest
      else if bs \<notin> originalBranches
        then Inl (Errorf ''branch %q not in original downstack, or is duplicated'' [bs])
      else parse_lines (originalBranches - {bs}) (newOrder @ [bs]) rest)"

text \<open>The loop that moves each branch of the reversed list onto the one before it.\<close>

fun onto_loop :: "'r deps \<Rightarrow> 'r \<Rightarrow> string \<Rightarrow> string list \<Rightarrow> 'r \<times> error option" where
  "onto_loop d r base [] = (r, None)"
| "onto_loop d r base (branch # rest) =
     (case branchOnto d r branch base of
        (r', Some err) \<Rightarrow> (r', Some (Wrap ''branch onto %s: %w'' [branch] err))
      | (r', None) \<Rightarrow> onto_loop d r' branch rest)"

text \<open>
  The second half of \<^verbatim>\<open>downstackEditCmd.Run\<close>, from the creation of the instruction
  file on. \<open>r\<close> is the repository after \<^verbatim>\<open>ensureStore\<close>.
\<close>

definition edit_downstacks ::
  "'r deps \<Rightarrow> downstackEditCmd \<Rightarrow> 'r \<Rightarrow> fs \<Rightarrow> string list \<Rightarrow> 'r \<times> fs \<times> log_entry list \<times> outcome"
where
  "edit_downstacks d cmd r files downstacks =
     (let originalBranches = fold insert downstacks {} in
      case createEditFile d files downstacks of
        (files1, instructionFile, Some err) \<Rightarrow> (r, files1, [], Return (Some err))
      | (files1, instructionFile, None) \<Rightarrow>
     (case exec_Run d (Editor cmd) instructionFile files1 of
        (files2, Some err) \<Rightarrow> (r, files2, [], Return (Some (Wrap ''run editor: %w'' [] err)))
      | (files2, None) \<Rightarrow>
     (case os_Open files2 instructionFile of
        Inl err \<Rightarrow> (r, files2, [], Return (Some (Wrap ''open edited file: %w'' [] err)))
      | Inr content \<Rightarrow>
     (case Scanner_tokens content of (lines, scanner_Err) \<Rightarrow>
     (case parse_lines originalBranches [] lines of
        Inl err \<Rightarrow> (r, files2, [], Return (Some err))
      | Inr newOrder \<Rightarrow>
     (case scanner_Err of
        Some err \<Rightarrow> (r, files2, [], Return (Some (Wrap ''read edited file: %w'' [] err)))
      | None \<Rightarrow>
      if length newOrder = 0
      then (r, files2, [Infof ''downstack edit aborted or nothing to do'' []], Return None)
      else
        let newTop = hd newOrder in
        (case onto_loop d r (Trunk d r) (rev newOrder) of
           (r', Some err) \<Rightarrow> (r', files2, [], Return (Some err))
         | (r', None) \<Rightarrow>
        (case branchCheckout d r' newTop of
           (r'', err) \<Rightarrow> (r'', files2, [], Return err)))))))))"

definition downstackEditCmd_Run ::
  "'r deps \<Rightarrow> downstackEditCmd \<Rightarrow> 'r \<Rightarrow> fs \<Rightarrow> 'r \<times> fs \<times> log_entry list \<times> outcome"
where
  "downstackEditCmd_Run d cmd r files =
     (if Editor cmd = []
      then (r, files, [], Return (Some (New ''an editor is required: use --editor or set $EDITOR'')))
      else case git_Open d r of
        Some err \<Rightarrow> (r, files, [], Return (Some (Wrap ''open repository: %w'' [] err)))
      | None \<Rightarrow>
     (case ensureStore d r of
        (r1, Some err) \<Rightarrow> (r1, files, [], Return (Some err))
      | (r1, None) \<Rightarrow>
     (case (if Name cmd = [] then CurrentBranch d r1 else Inr (Name cmd)) of
        Inl err \<Rightarrow> (r1, files, [], Return (Some (Wrap ''get current branch: %w'' [] err)))
      | Inr name \<Rightarrow>
      if name = Trunk d r1
      then (r1, files, [], Return (Some (New ''cannot edit below trunk'')))
      else
     (case ListDownstack d r1 name of
        Inl err \<Rightarrow> (r1, files, [], Return (Some (Wrap ''list downstack: %w'' [] err)))
      | Inr downstacks \<Rightarrow>
     (case must_NotBeEmptyf downstacks ''downstack cannot be empty'' of
        Some msg \<Rightarrow> (r1, files, [], Panic msg)
      | None \<Rightarrow>
     (case must_BeEqualf (hd downstacks) name ''downstack must start with the original branch'' of
        Some msg \<Rightarrow> (r1, files, [], Panic msg)
      | None \<Rightarrow>
      if length downstacks = 1
      then (r1, files, [Infof ''nothing to edit below %s'' [name]], Return None)
      else edit_downstacks d cmd r1 files downstacks))))))"

section \<open>A reference environment\<close>

text \<open>
  The store, the stack service, the restack engine and the version control adapter are
  not among the source files. For the scenarios S2, S3 and S4 the collaborators are
  modelled from the specification, over a state that holds the branch records of the
  store, the tip of every branch, the commit each branch was last put on, the branch
  that is checked out and the branches whose next rebase stops with a conflict.
\<close>

record branch_record =
  base_name :: string
  base_hash :: string

record gs_repo =
  st_trunk :: string
  st_branches :: "(string \<times> branch_record) list"
  git_tips :: "(string \<times> string) list"
  git_forks :: "(string \<times> string) list"
  git_head :: string
  git_conflicts :: "string list"

text \<open>Modelled from the spec: \<^verbatim>\<open>get(name)\<close> and a single \<^verbatim>\<open>Set(name, record)\<close>
  of the branch-graph store.\<close>

definition store_get :: "gs_repo \<Rightarrow> string \<Rightarrow> branch_record option" where
  "store_get r name = map_of (st_branches r) name"

fun alist_set :: "('k \<times> 'v) list \<Rightarrow> 'k \<Rightarrow> 'v \<Rightarrow> ('k \<times> 'v) list" where
  "alist_set [] k v = [(k, v)]"
| "alist_set ((k', v') # kvs) k v =
     (if k' = k then (k, v) # kvs else (k', v') # alist_set kvs k v)"

definition store_set :: "gs_repo \<Rightarrow> string \<Rightarrow> branch_record \<Rightarrow> gs_repo" where
  "store_set r name record = r\<lparr>st_branches := alist_set (st_branches r) name record\<rparr>"

text \<open>
  Modelled from the spec: \<^verbatim>\<open>list_downstack(b)\<close> of the stack service
  (\<^verbatim>\<open>gs.Service.ListDownstack\<close>, not among the source files): the chain
  \<open>[b, parent, grandparent, \<dots>]\<close> along the recorded bases, stopping before trunk; trunk
  itself is not a tracked branch, and a name without a record is unknown. On a store
  whose bases run in a cycle the walk does not end: the value is \<open>None\<close>.
\<close>

partial_function (option) list_downstack :: "gs_repo \<Rightarrow> string \<Rightarrow> (error + string list) option" where
  "list_downstack r b =
     (if b = st_trunk r then Some (Inl (Errorf ''trunk is not tracked: %v'' [b]))
      else case store_get r b of
        None \<Rightarrow> Some (Inl (Errorf ''unknown branch: %v'' [b]))
      | Some record \<Rightarrow>
          if base_name record = st_trunk r then Some (Inr [b])
          else Option.bind (list_downstack r (base_name record))
                 (\<lambda>below. Some (case below of Inl err \<Rightarrow> Inl err | Inr chain \<Rightarrow> Inr (b # chain))))"

declare list_downstack.simps [code]

text \<open>
  Modelled from the spec: \<^verbatim>\<open>list_upstack(b)\<close>: \<open>b\<close>, then its descendants in
  pre-order, the children of a branch in the lexicographic order of their names. The
  first argument bounds the depth of the walk; \<open>None\<close> when it is used up.
\<close>

definition children :: "gs_repo \<Rightarrow> string \<Rightarrow> string list" where
  "children r b = sort (map fst (filter (\<lambda>(name, record). base_name record = b) (st_branches r)))"

fun upstack_from :: "nat \<Rightarrow> gs_repo \<Rightarrow> string \<Rightarrow> string list option" where
  "upstack_from 0 r b = None"
| "upstack_from (Suc n) r b =
     map_option (\<lambda>above. b # concat above) (those (map (upstack_from n r) (children r b)))"

definition list_upstack :: "gs_repo \<Rightarrow> string \<Rightarrow> error + string list" where
  "list_upstack r b =
     (if b \<noteq> st_trunk r \<and> store_get r b = None then Inl (Errorf ''unknown branch: %v'' [b])
      else case upstack_from (Suc (length (st_branches r))) r b of
        None \<Rightarrow> Inl (Errorf ''the bases of %v run in a cycle'' [b])
      | Some branches \<Rightarrow> Inr branches)"

text \<open>
  Modelled from the spec: the adapter. \<^verbatim>\<open>resolve\<close> reads the tip of a branch;
  \<^verbatim>\<open>rebase_onto\<close> leaves the work tree on the branch, and either stops with a conflict
  or gives the branch a new tip on top of the tip of the new base; \<^verbatim>\<open>merge_base\<close> of a
  branch with its base is the commit the branch was last put on; \<^verbatim>\<open>checkout\<close> fails for
  a name that is no branch.
\<close>

definition resolve :: "gs_repo \<Rightarrow> string \<Rightarrow> string option" where
  "resolve r name = map_of (git_tips r) name"

definition merge_base :: "gs_repo \<Rightarrow> string \<Rightarrow> string option" where
  "merge_base r b = map_of (git_forks r) b"

definition rebase_onto :: "gs_repo \<Rightarrow> string \<Rightarrow> string \<Rightarrow> gs_repo \<times> error option" where
  "rebase_onto r branch new_base_name =
     (case (resolve r branch, resolve r new_base_name) of
        (Some tip, Some new_base) \<Rightarrow>
          if branch \<in> set (git_conflicts r)
          then (r\<lparr>git_head := branch\<rparr>, Some (Errorf ''conflict: %v on %v'' [branch, new_base_name]))
          else (r\<lparr>git_tips := alist_set (git_tips r) branch (tip @ ''+'' @ new_base),
                  git_forks := alist_set (git_forks r) branch new_base,
                  git_head := branch\<rparr>, None)
      | _ \<Rightarrow> (r, Some (Errorf ''not found: %v or %v'' [branch, new_base_name])))"

definition checkout :: "gs_repo \<Rightarrow> string \<Rightarrow> gs_repo \<times> error option" where
  "checkout r name =
     (if resolve r name = None then (r, Some (Errorf ''unknown branch: %v'' [name]))
      else (r\<lparr>git_head := name\<rparr>, None))"

text \<open>
  Modelled from the spec: the single-branch \<^verbatim>\<open>restack(b)\<close> of the restack engine
  (\<^verbatim>\<open>gs.Service.Restack\<close>), steps 1 to 6.
\<close>

definition restack :: "gs_repo \<Rightarrow> string \<Rightarrow> gs_repo \<times> (error + RestackResponse)" where
  "restack r b =
     (if b = st_trunk r then (r, Inl (Errorf ''trunk is not tracked: %v'' [b]))
      else case store_get r b of
        None \<Rightarrow> (r, Inl (Errorf ''unknown branch: %v'' [b]))
      | Some record \<Rightarrow>
     (case resolve r (base_name record) of
        None \<Rightarrow> (r, Inl (Errorf ''not found: %v'' [base_name record]))
      | Some new_base_hash \<Rightarrow>
          if new_base_hash = base_hash record \<and> merge_base r b = Some (base_hash record)
          then (r, Inl ErrAlreadyRestacked)
          else
     (case rebase_onto r b (base_name record) of
        (r', Some err) \<Rightarrow> (r', Inl err)
      | (r', None) \<Rightarrow>
          (store_set r' b (record\<lparr>base_hash := new_base_hash\<rparr>),
           Inr \<lparr>Base = base_name record\<rparr>))))"

text \<open>
  Modelled from the spec: the re-parent primitive \<^verbatim>\<open>onto(x, new_base)\<close>
  (\<^verbatim>\<open>branchOntoCmd.Run\<close>): the rebase, then the record of \<open>x\<close> with the new base and
  the tip of the new base.
\<close>

definition onto :: "gs_repo \<Rightarrow> string \<Rightarrow> string \<Rightarrow> gs_repo \<times> error option" where
  "onto r x new_base =
     (case store_get r x of
        None \<Rightarrow> (r, Some (Errorf ''unknown branch: %v'' [x]))
      | Some record \<Rightarrow>
     (case rebase_onto r x new_base of
        (r', Some err) \<Rightarrow> (r', Some err)
      | (r', None) \<Rightarrow>
     (case resolve r' new_base of
        None \<Rightarrow> (r', Some (Errorf ''not found: %v'' [new_base]))
      | Some new_hash \<Rightarrow>
          (store_set r' x (record\<lparr>base_name := new_base, base_hash := new_hash\<rparr>), None))))"

text \<open>
  The collaborators of the reference environment. The temporary file has a fixed name,
  writing appends to the file, closing succeeds, and the editor replaces the content of
  the file by \<open>edit\<close> of it.
\<close>

definition ref_deps :: "(string \<Rightarrow> string) \<Rightarrow> gs_repo deps" where
  "ref_deps edit =
     \<lparr> git_Open = (\<lambda>r. None),
       ensureStore = (\<lambda>r. (r, None)),
       CurrentBranch = (\<lambda>r. Inr (git_head r)),
       Trunk = st_trunk,
       ListUpstack = list_upstack,
       ListDownstack = (\<lambda>r b. case list_downstack r b of
                          None \<Rightarrow> Inl (Errorf ''the bases of %v run in a cycle'' [b])
                        | Some res \<Rightarrow> res),
       Restack = restack,
       Checkout = checkout,
       branchOnto = onto,
       branchCheckout = checkout,
       os_CreateTemp = (\<lambda>files. Inr ''/tmp/gs-edit-1.txt''),
       file_Write = (\<lambda>file data files.
                       (files(file \<mapsto> (case files file of None \<Rightarrow> [] | Some old \<Rightarrow> old) @ data), None)),
       file_Close = (\<lambda>file files. None),
       exec_Run = (\<lambda>editor file files.
                     case files file of
                       None \<Rightarrow> (files, Some (Errorf ''exit status 1'' []))
                     | Some content \<Rightarrow> (files(file \<mapsto> edit content), None)) \<rparr>"

text \<open>The chain \<open>main \<rightarrow> A \<rightarrow> B \<rightarrow> C\<close> of the scenarios S2 and S4, with \<open>C\<close> checked out
  and every branch on the tip of its base.\<close>

definition chain_ABC :: gs_repo where
  "chain_ABC =
     \<lparr> st_trunk = ''main'',
       st_branches = [(''A'', \<lparr>base_name = ''main'', base_hash = ''m0''\<rparr>),
                      (''B'', \<lparr>base_name = ''A'', base_hash = ''a0''\<rparr>),
                      (''C'', \<lparr>base_name = ''B'', base_hash = ''b0''\<rparr>)],
       git_tips = [(''main'', ''m0''), (''A'', ''a0''), (''B'', ''b0''), (''C'', ''c0'')],
       git_forks = [(''A'', ''m0''), (''B'', ''a0''), (''C'', ''b0'')],
       git_head = ''C'',
       git_conflicts = [] \<rparr>"

text \<open>Four starting states: the trunk checked out; \<open>A\<close> checked out; then \<open>main\<close>
  advanced by a commit (S2); then, in addition, the rebase of \<open>B\<close> bound to stop with
  a conflict (S3).\<close>

definition on_main :: gs_repo where
  "on_main = chain_ABC\<lparr>git_head := ''main''\<rparr>"

definition on_A :: gs_repo where
  "on_A = chain_ABC\<lparr>git_head := ''A''\<rparr>"

definition main_advanced :: gs_repo where
  "main_advanced = on_A\<lparr>git_tips := alist_set (git_tips on_A) ''main'' ''m1''\<rparr>"

definition B_conflicts :: gs_repo where
  "B_conflicts = main_advanced\<lparr>git_conflicts := [''B'']\<rparr>"

section \<open>Notions of the specification\<close>

text \<open>
  The names on the lines of a document, as the specification has them: the lines, less
  the white space around them, that are neither blank nor comments, in order.
\<close>

definition names_of :: "string list \<Rightarrow> string list" where
  "names_of lines = filter (\<lambda>bs. bs \<noteq> [] \<and> hd bs \<noteq> CHR ''#'') (map TrimSpace lines)"

text \<open>All the lines of a document, however long: what the scanner delivers when no
  line is too long for it.\<close>

definition document_lines :: "string \<Rightarrow> string list" where
  "document_lines data = map dropCR (split_lines [] data)"

text \<open>A string made of the runes of \<open>runes\<close> only; \<open>white\<close> is a string of white
  space.\<close>

inductive runs :: "string list \<Rightarrow> string \<Rightarrow> bool" for runes :: "string list" where
  runs_Nil: "runs runes []"
| runs_Cons: "e \<in> set runes \<Longrightarrow> runs runes s \<Longrightarrow> runs runes (e @ s)"

definition white :: "string \<Rightarrow> bool" where
  "white s \<longleftrightarrow> runs space_runes s"

text \<open>
  Re-parenting as the specification has it: a list of pairs of a branch and its new
  base, each moved by the \<^verbatim>\<open>onto\<close> primitive, in order, up to the first failure.
\<close>

fun reparent :: "'r deps \<Rightarrow> 'r \<Rightarrow> (string \<times> string) list \<Rightarrow> 'r \<times> error option" where
  "reparent d r [] = (r, None)"
| "reparent d r ((x, base) # rest) =
     (case branchOnto d r x base of
        (r', Some err) \<Rightarrow> (r', Some (Wrap ''branch onto %s: %w'' [x] err))
      | (r', None) \<Rightarrow> reparent d r' rest)"

text \<open>
  The first half of \<^verbatim>\<open>downstackEditCmd.Run\<close> went well: there is an editor, the
  repository opens, the store is there (leaving the repository \<open>r1\<close>), the branch to
  edit is \<open>name\<close>, it is not the trunk, and its downstack is \<open>downstacks\<close>.
\<close>

definition lists_downstack ::
  "'r deps \<Rightarrow> downstackEditCmd \<Rightarrow> 'r \<Rightarrow> 'r \<Rightarrow> string \<Rightarrow> string list \<Rightarrow> bool"
where
  "lists_downstack d cmd r r1 name downstacks \<longleftrightarrow>
     Editor cmd \<noteq> [] \<and> git_Open d r = None \<and> ensureStore d r = (r1, None) \<and>
     (if Name cmd = [] then CurrentBranch d r1 else Inr (Name cmd)) = Inr name \<and>
     name \<noteq> Trunk d r1 \<and> ListDownstack d r1 name = Inr downstacks"

text \<open>
  The editor session went well: the instruction file \<open>file\<close> was written (leaving the
  files \<open>files1\<close>), the editor returned without an error (leaving \<open>files2\<close>), and the
  file could be read again, with the content \<open>content\<close>.
\<close>

definition edits_document ::
  "'r deps \<Rightarrow> downstackEditCmd \<Rightarrow> fs \<Rightarrow> string list \<Rightarrow> string \<Rightarrow> fs \<Rightarrow> fs \<Rightarrow> string \<Rightarrow> bool"
where
  "edits_document d cmd files downstacks file files1 files2 content \<longleftrightarrow>
     createEditFile d files downstacks = (files1, file, None) \<and>
     exec_Run d (Editor cmd) file files1 = (files2, None) \<and>
     os_Open files2 file = Inr content"

section \<open>Scenarios\<close>

text \<open>The command of S4 (the branch is the one checked out) and the user's edit of
  S4: the three names at the top of the document become \<open>C\<close>, \<open>A\<close>, \<open>B\<close>.\<close>

definition edit_cmd :: downstackEditCmd where
  "edit_cmd = \<lparr>Editor = ''vi'', Name = []\<rparr>"

definition reorder_CAB :: "string \<Rightarrow> string" where
  "reorder_CAB content = ''C\<newline>A\<newline>B\<newline>'' @ drop 6 content"

text \<open>The lines of the document of S4 after the edit, the moves that S4 asks for, and
  the state after these moves and the checkout of \<open>C\<close>.\<close>

definition S4_lines :: "string list" where
  "S4_lines =
     [''C'', ''A'', ''B'', [],
      ''# Edit the order of branches by modifying the list above.'',
      ''# The branch at the bottom of the list will be merged into trunk first.'',
      ''# Branches above that will be stacked on top of it in the order they appear.'',
      ''# Branches deleted from the list will not be modified.'',
      ''#'',
      ''# Save and quit the editor to apply the changes.'',
      ''# Delete all lines in the editor to abort the operation.'']"

definition S4_moves :: "(string \<times> string) list" where
  "S4_moves = [(''B'', ''main''), (''A'', ''B''), (''C'', ''A'')]"

definition S4_final :: gs_repo where
  "S4_final = fst (checkout (fst (reparent (ref_deps reorder_CAB) chain_ABC S4_moves)) ''C'')"

text \<open>Three more edits: every line deleted; \<open>B\<close> replaced by a name that is not in the
  chain; \<open>B\<close> left out. And an editor that fails without touching the file.\<close>

definition delete_all :: "string \<Rightarrow> string" where
  "delete_all content = []"

definition replace_B_by_X :: "string \<Rightarrow> string" where
  "replace_B_by_X content = ''C\<newline>X\<newline>A\<newline>''"

definition leave_out_B :: "string \<Rightarrow> string" where
  "leave_out_B content = ''C\<newline>A\<newline>''"

definition editor_fails :: "gs_repo deps" where
  "editor_fails =
     (ref_deps id)\<lparr>exec_Run := (\<lambda>editor file files. (files, Some (Errorf ''exit status 1'' [])))\<rparr>"

section \<open>Properties of upstack restack\<close>

text \<open>The loop over a list is the loop over its front, then, when that ended without
  an error, the loop over its back from the state reached.\<close>

lemma restack_loop_append:
  "restack_loop d b r lg (xs @ ys) =
     (case restack_loop d b r lg xs of
        (r', lg', None) \<Rightarrow> restack_loop d b r' lg' ys
      | (r', lg', Some err) \<Rightarrow> (r', lg', Some err))"
  by (induction xs arbitrary: r lg) (auto split: prod.splits sum.splits)

lemma restack_loop_Checkout:
  "restack_loop (d\<lparr>Checkout := c\<rparr>) b r lg xs = restack_loop d b r lg xs"
  by (induction xs arbitrary: r lg) (auto split: prod.splits sum.splits)

lemma upstack_Run_loop:
  assumes "git_Open d r = None" and "ensureStore d r = (r1, None)"
    and "CurrentBranch d r1 = Inr b" and "ListUpstack d r1 b = Inr upstacks"
  shows "upstackRestackCmd_Run d r =
     (case restack_loop d b r1 [] upstacks of
        (r2, lg, Some err) \<Rightarrow> (r2, lg, Some err)
      | (r2, lg, None) \<Rightarrow>
          (case Checkout d r2 b of
             (r3, Some err) \<Rightarrow> (r3, lg, Some (Wrap ''checkout branch %v: %w'' [b] err))
           | (r3, None) \<Rightarrow> (r3, lg, None)))"
  using assms by (simp add: upstackRestackCmd_Run_def)

text \<open>
  C1. \<^verbatim>\<open>restack_upstack\<close> walks the branches that \<^verbatim>\<open>list_upstack\<close> returned for the
  current branch, in order. Take any branch \<open>x\<close> of that list, reached without an error
  in the state \<open>r2\<close> with the log \<open>lg\<close>: when \<open>x\<close> is the trunk, it is skipped (no
  restack, no message) and the walk goes on with the next branch; when its restack
  reports \<open>ErrAlreadyRestacked\<close>, the walk goes on with the next branch, and the message
  "branch does not need to be restacked" is logged exactly when \<open>x\<close> is not the current
  branch. The command ends as this loop does, followed by the checkout.
\<close>

theorem restack_upstack_iterates:
  assumes "git_Open d r = None" and "ensureStore d r = (r1, None)"
    and "CurrentBranch d r1 = Inr b" and "ListUpstack d r1 b = Inr (pre @ x # post)"
    and "restack_loop d b r1 [] pre = (r2, lg, None)"
  shows "(x = Trunk d r2 \<longrightarrow>
            restack_loop d b r1 [] (pre @ x # post) = restack_loop d b r2 lg post) \<and>
         (x \<noteq> Trunk d r2 \<longrightarrow>
            (\<forall>r3 e. Restack d r2 x = (r3, Inl e) \<and> errors_Is e ErrAlreadyRestacked \<longrightarrow>
               restack_loop d b r1 [] (pre @ x # post) =
                 restack_loop d b r3
                   (if x = b then lg
                    else lg @ [Infof ''%v: branch does not need to be restacked.'' [x]]) post)) \<and>
         upstackRestackCmd_Run d r =
           (case restack_loop d b r1 [] (pre @ x # post) of
              (r', lg', Some err) \<Rightarrow> (r', lg', Some err)
            | (r', lg', None) \<Rightarrow>
                (case Checkout d r' b of
                   (r'', Some err) \<Rightarrow> (r'', lg', Some (Wrap ''checkout branch %v: %w'' [b] err))
                 | (r'', None) \<Rightarrow> (r'', lg', None)))"
proof (intro conjI impI allI)
  assume "x = Trunk d r2"
  then show "restack_loop d b r1 [] (pre @ x # post) = restack_loop d b r2 lg post"
    using assms(5) by (simp add: restack_loop_append)
next
  fix r3 e
  assume "x \<noteq> Trunk d r2" and "Restack d r2 x = (r3, Inl e) \<and> errors_Is e ErrAlreadyRestacked"
  then show "restack_loop d b r1 [] (pre @ x # post) =
      restack_loop d b r3
        (if x = b then lg else lg @ [Infof ''%v: branch does not need to be restacked.'' [x]]) post"
    using assms(5) by (simp add: restack_loop_append)
next
  show "upstackRestackCmd_Run d r =
           (case restack_loop d b r1 [] (pre @ x # post) of
              (r', lg', Some err) \<Rightarrow> (r', lg', Some err)
            | (r', lg', None) \<Rightarrow>
                (case Checkout d r' b of
                   (r'', Some err) \<Rightarrow> (r'', lg', Some (Wrap ''checkout branch %v: %w'' [b] err))
                 | (r'', None) \<Rightarrow> (r'', lg', None)))"
    by (rule upstack_Run_loop [OF assms(1-4)])
qed

theorem restack_upstack_iterates_witness:
  "ListUpstack (ref_deps id) on_main ''main'' = Inr ([] @ ''main'' # [''A'', ''B'', ''C'']) \<and>
   ''main'' = Trunk (ref_deps id) on_main \<and>
   restack_loop (ref_deps id) ''main'' on_main [] ([] @ ''main'' # [''A'', ''B'', ''C'']) =
     restack_loop (ref_deps id) ''main'' on_main [] [''A'', ''B'', ''C''] \<and>
   ListUpstack (ref_deps id) on_A ''A'' = Inr ([''A''] @ ''B'' # [''C'']) \<and>
   restack_loop (ref_deps id) ''A'' on_A [] [''A''] = (on_A, [], None) \<and>
   ''B'' \<noteq> Trunk (ref_deps id) on_A \<and>
   Restack (ref_deps id) on_A ''B'' = (on_A, Inl ErrAlreadyRestacked) \<and>
   restack_loop (ref_deps id) ''A'' on_A [] ([''A''] @ ''B'' # [''C'']) =
     restack_loop (ref_deps id) ''A'' on_A
       [Infof ''%v: branch does not need to be restacked.'' [''B'']] [''C''] \<and>
   upstackRestackCmd_Run (ref_deps id) on_A =
     (on_A, [Infof ''%v: branch does not need to be restacked.'' [''B''],
             Infof ''%v: branch does not need to be restacked.'' [''C'']], None)"
proof -
  let ?d = "ref_deps id"
  let ?B = "Infof ''%v: branch does not need to be restacked.'' [''B'']"
  let ?C = "Infof ''%v: branch does not need to be restacked.'' [''C'']"
  have m1: "git_Open ?d on_main = None" by (simp add: ref_deps_def)
  have m2: "ensureStore ?d on_main = (on_main, None)" by (simp add: ref_deps_def)
  have m3: "CurrentBranch ?d on_main = Inr ''main''"
    by (simp add: ref_deps_def on_main_def)
  have m4: "ListUpstack ?d on_main ''main'' = Inr ([] @ ''main'' # [''A'', ''B'', ''C''])"
    by code_simp
  have m5: "restack_loop ?d ''main'' on_main [] [] = (on_main, [], None)" by simp
  have m6: "''main'' = Trunk ?d on_main"
    by (simp add: ref_deps_def on_main_def chain_ABC_def)
  from restack_upstack_iterates [OF m1 m2 m3 m4 m5] m6
  have skip: "restack_loop ?d ''main'' on_main [] ([] @ ''main'' # [''A'', ''B'', ''C'']) =
      restack_loop ?d ''main'' on_main [] [''A'', ''B'', ''C'']"
    by blast
  have h1: "git_Open ?d on_A = None" by (simp add: ref_deps_def)
  have h2: "ensureStore ?d on_A = (on_A, None)" by (simp add: ref_deps_def)
  have h3: "CurrentBranch ?d on_A = Inr ''A''"
    by (simp add: ref_deps_def on_A_def)
  have h4: "ListUpstack ?d on_A ''A'' = Inr ([''A''] @ ''B'' # [''C''])"
    by code_simp
  have h5: "restack_loop ?d ''A'' on_A [] [''A''] = (on_A, [], None)"
    by code_simp
  have h6: "''B'' \<noteq> Trunk ?d on_A"
    by (simp add: ref_deps_def on_A_def chain_ABC_def)
  have h7: "Restack ?d on_A ''B'' = (on_A, Inl ErrAlreadyRestacked)"
    by code_simp
  have h8: "restack_loop ?d ''A'' on_A [?B] [''C''] = (on_A, [?B, ?C], None)"
    by code_simp
  have h9: "Checkout ?d on_A ''A'' = (on_A, None)"
    by code_simp
  note t = restack_upstack_iterates [OF h1 h2 h3 h4 h5]
  from t h6 h7 have step: "restack_loop ?d ''A'' on_A [] ([''A''] @ ''B'' # [''C'']) =
     restack_loop ?d ''A'' on_A [?B] [''C'']"
    by simp
  from t have "upstackRestackCmd_Run ?d on_A =
           (case restack_loop ?d ''A'' on_A [] ([''A''] @ ''B'' # [''C'']) of
              (r', lg', Some err) \<Rightarrow> (r', lg', Some err)
            | (r', lg', None) \<Rightarrow>
                (case Checkout ?d r' ''A'' of
                   (r'', Some err) \<Rightarrow> (r'', lg', Some (Wrap ''checkout branch %v: %w'' [''A''] err))
                 | (r'', None) \<Rightarrow> (r'', lg', None)))"
    by blast
  then have run: "upstackRestackCmd_Run ?d on_A = (on_A, [?B, ?C], None)"
    by (simp only: step h8 h9 prod.case option.case)
  show ?thesis
    by (intro conjI m4 m6 skip h4 h5 h6 h7 step run)
qed

text \<open>
  C3. When the restack of a branch \<open>x\<close> fails with an error that is not
  \<open>ErrAlreadyRestacked\<close> (a conflict, say), the command stops there and returns that
  error, wrapped. The state it leaves is the one the failed restack returned, on top of
  the state \<open>r2\<close> that the restacks before it produced: nothing is rolled back, the
  branches after \<open>x\<close> are not visited, and the checkout of the original branch plays no
  part (any other \<open>Checkout\<close> gives the same result).
\<close>

theorem restack_upstack_aborts:
  assumes "git_Open d r = None" and "ensureStore d r = (r1, None)"
    and "CurrentBranch d r1 = Inr b" and "ListUpstack d r1 b = Inr (pre @ x # post)"
    and "restack_loop d b r1 [] pre = (r2, lg, None)"
    and "x \<noteq> Trunk d r2" and "Restack d r2 x = (r3, Inl e)"
    and "\<not> errors_Is e ErrAlreadyRestacked"
  shows "upstackRestackCmd_Run d r = (r3, lg, Some (Wrap ''restack branch: %w'' [] e)) \<and>
         (\<forall>c. upstackRestackCmd_Run (d\<lparr>Checkout := c\<rparr>) r =
                (r3, lg, Some (Wrap ''restack branch: %w'' [] e)))"
proof -
  have loop: "restack_loop d b r1 [] (pre @ x # post) =
      (r3, lg, Some (Wrap ''restack branch: %w'' [] e))"
    using assms(5-8) by (simp add: restack_loop_append)
  have run: "upstackRestackCmd_Run d r = (r3, lg, Some (Wrap ''restack branch: %w'' [] e))"
    using upstack_Run_loop [OF assms(1-4)] loop by simp
  have "upstackRestackCmd_Run (d\<lparr>Checkout := c\<rparr>) r =
      (r3, lg, Some (Wrap ''restack branch: %w'' [] e))" for c
    using assms(1-4) loop
    by (simp add: upstackRestackCmd_Run_def restack_loop_Checkout)
  with run show ?thesis by blast
qed

theorem restack_upstack_aborts_witness:
  "ListUpstack (ref_deps id) B_conflicts ''A'' = Inr ([''A''] @ ''B'' # [''C'']) \<and>
   ''B'' \<noteq> Trunk (ref_deps id) (fst (restack B_conflicts ''A'')) \<and>
   \<not> errors_Is (Errorf ''conflict: %v on %v'' [''B'', ''A'']) ErrAlreadyRestacked \<and>
   snd (snd (upstackRestackCmd_Run (ref_deps id) B_conflicts)) =
     Some (Wrap ''restack branch: %w'' [] (Errorf ''conflict: %v on %v'' [''B'', ''A''])) \<and>
   store_get (fst (upstackRestackCmd_Run (ref_deps id) B_conflicts)) ''A'' =
     Some \<lparr>base_name = ''main'', base_hash = ''m1''\<rparr> \<and>
   store_get (fst (upstackRestackCmd_Run (ref_deps id) B_conflicts)) ''B'' =
     Some \<lparr>base_name = ''A'', base_hash = ''a0''\<rparr> \<and>
   git_head B_conflicts = ''A'' \<and>
   git_head (fst (upstackRestackCmd_Run (ref_deps id) B_conflicts)) = ''B''"
proof -
  let ?d = "ref_deps id"
  let ?r2 = "fst (restack B_conflicts ''A'')"
  let ?r3 = "fst (restack ?r2 ''B'')"
  let ?e = "Errorf ''conflict: %v on %v'' [''B'', ''A'']"
  have h1: "git_Open ?d B_conflicts = None" by (simp add: ref_deps_def)
  have h2: "ensureStore ?d B_conflicts = (B_conflicts, None)" by (simp add: ref_deps_def)
  have h3: "CurrentBranch ?d B_conflicts = Inr ''A''" by code_simp
  have h4: "ListUpstack ?d B_conflicts ''A'' = Inr ([''A''] @ ''B'' # [''C''])" by code_simp
  have h5: "restack_loop ?d ''A'' B_conflicts [] [''A''] =
      (?r2, [Infof ''%v: restacked on %v'' [''A'', ''main'']], None)" by code_simp
  have h6: "''B'' \<noteq> Trunk ?d ?r2" by code_simp
  have h7: "Restack ?d ?r2 ''B'' = (?r3, Inl ?e)" by code_simp
  have h8: "\<not> errors_Is ?e ErrAlreadyRestacked" by simp
  have run: "upstackRestackCmd_Run ?d B_conflicts =
      (?r3, [Infof ''%v: restacked on %v'' [''A'', ''main'']],
       Some (Wrap ''restack branch: %w'' [] ?e))"
    using restack_upstack_aborts [OF h1 h2 h3 h4 h5 h6 h7 h8] by (rule conjunct1)
  have a: "store_get ?r3 ''A'' = Some \<lparr>base_name = ''main'', base_hash = ''m1''\<rparr>" by code_simp
  have b: "store_get ?r3 ''B'' = Some \<lparr>base_name = ''A'', base_hash = ''a0''\<rparr>" by code_simp
  have c: "git_head B_conflicts = ''A''" by code_simp
  have d: "git_head ?r3 = ''B''" by code_simp
  show ?thesis
    unfolding run fst_conv snd_conv
    by (intro conjI h4 h6 h8 a b c d refl)
qed

text \<open>
  C7. When the loop has gone through all branches without an error, the command checks
  out the branch that was current at the start: its result is the result of that
  checkout. With a checkout that, when it succeeds, leaves the work tree on the branch
  it was given, a successful run ends on the branch it started on.
\<close>

theorem restack_upstack_restores:
  assumes "git_Open d r = None" and "ensureStore d r = (r1, None)"
    and "CurrentBranch d r1 = Inr b" and "ListUpstack d r1 b = Inr upstacks"
    and "restack_loop d b r1 [] upstacks = (r2, lg, None)"
  shows "upstackRestackCmd_Run d r =
           (case Checkout d r2 b of
              (r3, Some err) \<Rightarrow> (r3, lg, Some (Wrap ''checkout branch %v: %w'' [b] err))
            | (r3, None) \<Rightarrow> (r3, lg, None)) \<and>
         ((\<forall>r' n r''. Checkout d r' n = (r'', None) \<longrightarrow> CurrentBranch d r'' = Inr n) \<longrightarrow>
          (\<forall>r3 lg'. upstackRestackCmd_Run d r = (r3, lg', None) \<longrightarrow>
             CurrentBranch d r3 = CurrentBranch d r1))"
proof -
  have run: "upstackRestackCmd_Run d r =
           (case Checkout d r2 b of
              (r3, Some err) \<Rightarrow> (r3, lg, Some (Wrap ''checkout branch %v: %w'' [b] err))
            | (r3, None) \<Rightarrow> (r3, lg, None))"
    using upstack_Run_loop [OF assms(1-4)] assms(5) by simp
  then show ?thesis
    using assms(3) by (auto split: prod.splits option.splits)
qed

theorem restack_upstack_restores_witness:
  "restack_loop (ref_deps id) ''A'' main_advanced [] [''A'', ''B'', ''C''] =
     (fst (restack_loop (ref_deps id) ''A'' main_advanced [] [''A'', ''B'', ''C'']),
      [Infof ''%v: restacked on %v'' [''A'', ''main''],
       Infof ''%v: restacked on %v'' [''B'', ''A''],
       Infof ''%v: restacked on %v'' [''C'', ''B'']], None) \<and>
   git_head (fst (restack_loop (ref_deps id) ''A'' main_advanced [] [''A'', ''B'', ''C''])) = ''C'' \<and>
   snd (snd (upstackRestackCmd_Run (ref_deps id) main_advanced)) = None \<and>
   CurrentBranch (ref_deps id) main_advanced = Inr ''A'' \<and>
   CurrentBranch (ref_deps id) (fst (upstackRestackCmd_Run (ref_deps id) main_advanced)) = Inr ''A''"
proof -
  let ?d = "ref_deps id"
  let ?ups = "[''A'', ''B'', ''C'']"
  let ?lg = "[Infof ''%v: restacked on %v'' [''A'', ''main''],
       Infof ''%v: restacked on %v'' [''B'', ''A''],
       Infof ''%v: restacked on %v'' [''C'', ''B'']]"
  let ?r2 = "fst (restack_loop ?d ''A'' main_advanced [] ?ups)"
  let ?r3 = "fst (checkout ?r2 ''A'')"
  have h1: "git_Open ?d main_advanced = None" by (simp add: ref_deps_def)
  have h2: "ensureStore ?d main_advanced = (main_advanced, None)" by (simp add: ref_deps_def)
  have h3: "CurrentBranch ?d main_advanced = Inr ''A''" by code_simp
  have h4: "ListUpstack ?d main_advanced ''A'' = Inr ?ups" by code_simp
  have h5: "restack_loop ?d ''A'' main_advanced [] ?ups = (?r2, ?lg, None)" by code_simp
  have h6: "git_head ?r2 = ''C''" by code_simp
  have contract: "\<forall>r' n r''. Checkout ?d r' n = (r'', None) \<longrightarrow> CurrentBranch ?d r'' = Inr n"
    by (auto simp: ref_deps_def checkout_def split: if_splits)
  have ok: "Checkout ?d ?r2 ''A'' = (?r3, None)" by code_simp
  note t = restack_upstack_restores [OF h1 h2 h3 h4 h5]
  from t have "upstackRestackCmd_Run ?d main_advanced =
           (case Checkout ?d ?r2 ''A'' of
              (r3, Some err) \<Rightarrow> (r3, ?lg, Some (Wrap ''checkout branch %v: %w'' [''A''] err))
            | (r3, None) \<Rightarrow> (r3, ?lg, None))"
    by (rule conjunct1)
  then have run: "upstackRestackCmd_Run ?d main_advanced = (?r3, ?lg, None)"
    by (simp only: ok prod.case option.case)
  from t have "(\<forall>r' n r''. Checkout ?d r' n = (r'', None) \<longrightarrow> CurrentBranch ?d r'' = Inr n) \<longrightarrow>
          (\<forall>r3 lg'. upstackRestackCmd_Run ?d main_advanced = (r3, lg', None) \<longrightarrow>
             CurrentBranch ?d r3 = CurrentBranch ?d main_advanced)"
    by (rule conjunct2)
  with contract have "\<forall>r3 lg'. upstackRestackCmd_Run ?d main_advanced = (r3, lg', None) \<longrightarrow>
             CurrentBranch ?d r3 = CurrentBranch ?d main_advanced"
    by (rule rev_mp)
  with run have "CurrentBranch ?d ?r3 = CurrentBranch ?d main_advanced"
    by blast
  then have fin: "CurrentBranch ?d ?r3 = Inr ''A''"
    by (simp only: h3)
  show ?thesis
    unfolding run fst_conv snd_conv
    by (intro conjI h5 h6 h3 fin refl)
qed

section \<open>Properties of downstack edit\<close>

subsection \<open>White space\<close>

text \<open>Every white space rune is found at the front of a string that starts with it,
  read forwards and read backwards, and no byte after the first of a white space rune
  is the first byte of one.\<close>

lemma space_width_tokens:
  "list_all (\<lambda>e. \<forall>t. space_width space_runes (e @ t) = length e) space_runes"
  by (simp add: space_runes_def space_width_def)

lemma space_width_tokens_rev:
  "list_all (\<lambda>e. \<forall>t. space_width (map rev space_runes) (e @ t) = length e) (map rev space_runes)"
  by (simp add: space_runes_def space_width_def)

lemma space_runes_inner:
  "list_all (\<lambda>e. list_all (\<lambda>c. c \<notin> hd ` set space_runes) (tl e)) space_runes"
  by (simp add: space_runes_def)

lemma space_runes_nonempty: "[] \<notin> set space_runes"
  by (simp add: space_runes_def)

lemma space_width_Nil: "space_width runes [] = 0"
proof -
  have "find (\<lambda>e. e \<noteq> [] \<and> take (length e) [] = e) runes = None"
    by (auto simp: find_None_iff)
  then show ?thesis by (simp add: space_width_def)
qed

lemma space_width_0_iff:
  "space_width runes s = 0 \<longleftrightarrow> (\<forall>e \<in> set runes. e \<noteq> [] \<longrightarrow> take (length e) s \<noteq> e)"
  by (auto simp: space_width_def find_None_iff find_Some_iff split: option.splits)

lemma space_width_no_prefix:
  "\<not> (\<exists>e \<in> set runes. \<exists>t. s = e @ t) \<Longrightarrow> space_width runes s = 0"
  unfolding space_width_0_iff
  by (metis append_take_drop_id)

lemma space_width_no_suffix:
  assumes "\<not> (\<exists>e \<in> set runes. \<exists>t. s = t @ e)"
  shows "space_width (map rev runes) (rev s) = 0"
proof (rule space_width_no_prefix, rule notI)
  assume "\<exists>e \<in> set (map rev runes). \<exists>t. rev s = e @ t"
  then obtain e t where "e \<in> set runes" and "rev s = rev e @ t" by auto
  then have "s = rev t @ e" by (metis rev_append rev_rev_ident)
  with \<open>e \<in> set runes\<close> assms show False by blast
qed

lemma trim_runes_0: "space_width runes s = 0 \<Longrightarrow> trim_runes runes s = s"
  by (simp add: trim_runes.simps)

text \<open>Trimming eats a run of white space, and stops at a string that does not start
  with a white space rune.\<close>

lemma trim_runes_runs:
  assumes "runs runes ws"
    and "list_all (\<lambda>e. \<forall>t. space_width runes (e @ t) = length e) runes"
    and "[] \<notin> set runes"
  shows "trim_runes runes (ws @ s) = trim_runes runes s"
  using assms(1)
proof (induction rule: runs.induct)
  case runs_Nil
  show ?case by simp
next
  case (runs_Cons e ws)
  from runs_Cons.hyps(1) assms(2) have w: "space_width runes (e @ ws @ s) = length e"
    by (simp add: list_all_iff)
  from runs_Cons.hyps(1) assms(3) have "e \<noteq> []" by auto
  with w have "trim_runes runes (e @ ws @ s) = trim_runes runes (ws @ s)"
    by (subst trim_runes.simps) simp
  with runs_Cons.IH show ?case by simp
qed

lemma runs_append: "runs runes a \<Longrightarrow> runs runes b \<Longrightarrow> runs runes (a @ b)"
proof (induction rule: runs.induct)
  case runs_Nil
  then show ?case by simp
next
  case (runs_Cons e s)
  then have "runs runes (s @ b)" by simp
  with runs_Cons.hyps(1) have "runs runes (e @ (s @ b))" by (rule runs.runs_Cons)
  then show ?case by simp
qed

lemma runs_rev: "runs runes s \<Longrightarrow> runs (map rev runes) (rev s)"
proof (induction rule: runs.induct)
  case runs_Nil
  show ?case by (simp add: runs.runs_Nil)
next
  case (runs_Cons e s)
  have "runs (map rev runes) (rev e @ [])"
    using runs_Cons.hyps(1) by (intro runs.runs_Cons runs.runs_Nil) simp
  then have "runs (map rev runes) (rev e)" by simp
  with runs_Cons.IH show ?case by (simp add: runs_append)
qed

lemma runs_hd:
  assumes "runs runes ws" and "ws \<noteq> []" and "[] \<notin> set runes"
  shows "hd ws \<in> hd ` set runes"
  using assms(1,2)
proof (induction rule: runs.induct)
  case runs_Nil
  then show ?case by simp
next
  case (runs_Cons e s)
  from runs_Cons.hyps(1) assms(3) have "e \<noteq> []" by auto
  then have "hd (e @ s) = hd e" by simp
  with runs_Cons.hyps(1) show ?case by auto
qed

lemma space_width_append_white:
  assumes "space_width space_runes name = 0" and "name \<noteq> []" and "white ws"
  shows "space_width space_runes (name @ ws) = 0"
  unfolding space_width_0_iff
proof (intro ballI impI notI)
  fix e
  assume e: "e \<in> set space_runes" "e \<noteq> []" and t: "take (length e) (name @ ws) = e"
  show False
  proof (cases "length e \<le> length name")
    case True
    with t have "take (length e) name = e" by simp
    with assms(1) e show False by (simp add: space_width_0_iff)
  next
    case False
    then have k: "length name < length e" by simp
    from t have "length (take (length e) (name @ ws)) = length e" by simp
    with k have ws: "ws \<noteq> []" by auto
    from t have "e ! length name = (name @ ws) ! length name"
      using k by (metis nth_take)
    also have "\<dots> = hd ws" using ws by (simp add: nth_append hd_conv_nth)
    finally have "e ! length name \<in> hd ` set space_runes"
      using runs_hd [OF assms(3) [unfolded white_def] ws space_runes_nonempty] by simp
    moreover have "e ! length name \<in> set (tl e)"
    proof -
      from assms(2) obtain m where m: "length name = Suc m" by (cases name) auto
      with k have "m < length (tl e)" by simp
      then have "tl e ! m \<in> set (tl e)" by simp
      moreover have "tl e ! m = e ! Suc m" using e(2) by (cases e) auto
      ultimately show ?thesis using m by simp
    qed
    ultimately show False
      using space_runes_inner e(1) by (auto simp: list_all_iff)
  qed
qed

lemma white_Nil: "white []"
  by (simp add: white_def runs.runs_Nil)

lemma white_rune: "e \<in> set space_runes \<Longrightarrow> white s \<Longrightarrow> white (e @ s)"
  by (simp add: white_def runs.runs_Cons)

lemma TrimSpace_white: "white ws \<Longrightarrow> TrimSpace ws = []"
proof -
  assume "white ws"
  then have "trim_runes space_runes (ws @ []) = trim_runes space_runes []"
    unfolding white_def
    by (rule trim_runes_runs) (rule space_width_tokens, rule space_runes_nonempty)
  then have "TrimLeftSpace ws = []"
    by (simp add: TrimLeftSpace_def trim_runes_0 space_width_Nil)
  then show ?thesis
    by (simp add: TrimSpace_def TrimRightSpace_def trim_runes_0 space_width_Nil)
qed

lemma TrimSpace_name:
  assumes "white ws" and "white ws'" and "name \<noteq> []"
    and "\<not> (\<exists>e \<in> set space_runes. \<exists>t. name = e @ t)"
    and "\<not> (\<exists>e \<in> set space_runes. \<exists>t. name = t @ e)"
  shows "TrimSpace (ws @ name @ ws') = name"
proof -
  have "trim_runes space_runes (ws @ (name @ ws')) = trim_runes space_runes (name @ ws')"
    using assms(1) unfolding white_def
    by (rule trim_runes_runs) (rule space_width_tokens, rule space_runes_nonempty)
  also have "\<dots> = name @ ws'"
    by (intro trim_runes_0 space_width_append_white space_width_no_prefix assms)
  finally have left: "TrimLeftSpace (ws @ name @ ws') = name @ ws'"
    by (simp add: TrimLeftSpace_def)
  have "runs (map rev space_runes) (rev ws')"
    using assms(2) unfolding white_def by (rule runs_rev)
  then have "trim_runes (map rev space_runes) (rev ws' @ rev name) =
      trim_runes (map rev space_runes) (rev name)"
    by (rule trim_runes_runs) (rule space_width_tokens_rev, use space_runes_nonempty in auto)
  also have "\<dots> = rev name"
    by (intro trim_runes_0 space_width_no_suffix assms)
  finally have "TrimRightSpace (name @ ws') = name"
    by (simp add: TrimRightSpace_def)
  with left show ?thesis by (simp add: TrimSpace_def)
qed

lemma trim_runes_last:
  "s \<noteq> [] \<Longrightarrow> last s \<notin> last ` set runes \<Longrightarrow>
   trim_runes runes s \<noteq> [] \<and> last (trim_runes runes s) = last s"
proof (induction runes s rule: trim_runes.induct)
  case (1 runes s)
  show ?case
  proof (cases "space_width runes s = 0")
    case True
    with "1.prems" show ?thesis by (simp add: trim_runes_0)
  next
    case False
    then obtain e where f: "find (\<lambda>e. e \<noteq> [] \<and> take (length e) s = e) runes = Some e"
      by (auto simp: space_width_def split: option.splits)
    then have w: "space_width runes s = length e"
      by (simp add: space_width_def)
    from f have e: "e \<in> set runes" "e \<noteq> []" "take (length e) s = e"
      unfolding find_Some_iff by (auto intro: nth_mem)
    have "length e < length s"
    proof (rule ccontr)
      assume "\<not> length e < length s"
      with e(3) have "s = e" by simp
      with e(1) "1.prems"(2) show False by auto
    qed
    then have d: "drop (length e) s \<noteq> []" and l: "last (drop (length e) s) = last s"
      by simp_all
    from "1.IH" [OF False] d l "1.prems"(2) w
    have "trim_runes runes (drop (length e) s) \<noteq> [] \<and>
          last (trim_runes runes (drop (length e) s)) = last s"
      by simp
    moreover have "trim_runes runes s = trim_runes runes (drop (length e) s)"
      using False w by (subst trim_runes.simps) simp
    ultimately show ?thesis by simp
  qed
qed

lemma TrimSpace_comment:
  assumes "white ws"
  shows "TrimSpace (ws @ CHR ''#'' # comment) \<noteq> [] \<and> hd (TrimSpace (ws @ CHR ''#'' # comment)) = CHR ''#''"
proof -
  let ?s = "CHR ''#'' # comment"
  have "trim_runes space_runes (ws @ ?s) = trim_runes space_runes ?s"
    using assms unfolding white_def
    by (rule trim_runes_runs) (rule space_width_tokens, rule space_runes_nonempty)
  also have "\<dots> = ?s"
    by (rule trim_runes_0) (simp add: space_width_0_iff space_runes_def)
  finally have left: "TrimLeftSpace (ws @ ?s) = ?s"
    by (simp add: TrimLeftSpace_def)
  have "last (rev ?s) \<notin> last ` set (map rev space_runes)"
    by (simp add: space_runes_def)
  with trim_runes_last [of "rev ?s" "map rev space_runes"]
  have "trim_runes (map rev space_runes) (rev ?s) \<noteq> [] \<and>
        last (trim_runes (map rev space_runes) (rev ?s)) = CHR ''#''"
    by simp
  then have "TrimRightSpace ?s \<noteq> [] \<and> hd (TrimRightSpace ?s) = CHR ''#''"
    by (simp add: TrimRightSpace_def hd_rev)
  with left show ?thesis by (simp add: TrimSpace_def)
qed

text \<open>A string that neither starts nor ends with a byte of the first, respectively
  last, bytes of the white space runes is left as it is.\<close>

lemma rune_prefix_hd:
  assumes "s \<noteq> []" and "hd s \<notin> hd ` set space_runes"
  shows "\<not> (\<exists>e \<in> set space_runes. \<exists>t. s = e @ t)"
proof
  assume "\<exists>e \<in> set space_runes. \<exists>t. s = e @ t"
  then obtain e t where e: "e \<in> set space_runes" "s = e @ t" by blast
  with space_runes_nonempty have "e \<noteq> []" by auto
  with e have "hd s = hd e" by simp
  with e(1) assms(2) show False by auto
qed

lemma rune_suffix_last:
  assumes "s \<noteq> []" and "last s \<notin> last ` set space_runes"
  shows "\<not> (\<exists>e \<in> set space_runes. \<exists>t. s = t @ e)"
proof
  assume "\<exists>e \<in> set space_runes. \<exists>t. s = t @ e"
  then obtain e t where e: "e \<in> set space_runes" "s = t @ e" by blast
  with space_runes_nonempty have "e \<noteq> []" by auto
  with e have "last s = last e" by simp
  with e(1) assms(2) show False by auto
qed

lemma TrimSpace_plain:
  assumes "s \<noteq> []" and "hd s \<notin> hd ` set space_runes" and "last s \<notin> last ` set space_runes"
  shows "TrimSpace s = s"
  using TrimSpace_name [OF white_Nil white_Nil assms(1)
      rune_prefix_hd [OF assms(1,2)] rune_suffix_last [OF assms(1,3)]]
  by simp

subsection \<open>The parser and the scanner\<close>

lemma fold_insert_set: "fold insert xs A = set xs \<union> A"
  by (induction xs arbitrary: A) auto

lemma names_of_Cons:
  "names_of (l # ls) =
     (if TrimSpace l \<noteq> [] \<and> hd (TrimSpace l) \<noteq> CHR ''#'' then TrimSpace l # names_of ls
      else names_of ls)"
  by (simp add: names_of_def)

text \<open>The parser succeeds exactly on the documents whose names are distinct names of
  the chain, and then returns these names in order.\<close>

lemma parse_lines_good:
  "distinct (names_of ls) \<Longrightarrow> set (names_of ls) \<subseteq> orig \<Longrightarrow>
   parse_lines orig acc ls = Inr (acc @ names_of ls)"
proof (induction ls arbitrary: orig acc)
  case Nil
  then show ?case by (simp add: names_of_def)
next
  case (Cons l ls)
  show ?case
  proof (cases "TrimSpace l \<noteq> [] \<and> hd (TrimSpace l) \<noteq> CHR ''#''")
    case False
    with Cons show ?thesis by (auto simp: names_of_Cons Let_def)
  next
    case True
    with Cons.prems have d: "distinct (names_of ls)" and n: "TrimSpace l \<notin> set (names_of ls)"
      and s: "set (names_of ls) \<subseteq> orig - {TrimSpace l}" and m: "TrimSpace l \<in> orig"
      by (auto simp: names_of_Cons)
    from Cons.IH [OF d s] True m show ?thesis
      by (simp add: names_of_Cons Let_def)
  qed
qed

lemma parse_lines_bad:
  "\<not> (distinct (names_of ls) \<and> set (names_of ls) \<subseteq> orig) \<Longrightarrow>
   \<exists>n \<in> set (names_of ls).
     parse_lines orig acc ls = Inl (Errorf ''branch %q not in original downstack, or is duplicated'' [n])"
proof (induction ls arbitrary: orig acc)
  case Nil
  then show ?case by (simp add: names_of_def)
next
  case (Cons l ls)
  show ?case
  proof (cases "TrimSpace l \<noteq> [] \<and> hd (TrimSpace l) \<noteq> CHR ''#''")
    case False
    with Cons.prems have "\<not> (distinct (names_of ls) \<and> set (names_of ls) \<subseteq> orig)"
      by (auto simp: names_of_Cons)
    from Cons.IH [OF this, of acc] False show ?thesis
      by (auto simp: names_of_Cons Let_def)
  next
    case True
    show ?thesis
    proof (cases "TrimSpace l \<in> orig")
      case False
      with True show ?thesis by (auto simp: names_of_Cons Let_def)
    next
      case m: True
      with True Cons.prems
      have "\<not> (distinct (names_of ls) \<and> set (names_of ls) \<subseteq> orig - {TrimSpace l})"
        by (auto simp: names_of_Cons)
      from Cons.IH [OF this, of "acc @ [TrimSpace l]"] True m show ?thesis
        by (auto simp: names_of_Cons Let_def)
    qed
  qed
qed

lemma parse_lines_Inr:
  assumes "parse_lines orig [] ls = Inr order"
  shows "order = names_of ls \<and> distinct order \<and> set order \<subseteq> orig"
proof (cases "distinct (names_of ls) \<and> set (names_of ls) \<subseteq> orig")
  case True
  with assms parse_lines_good [of ls orig "[]"] show ?thesis by simp
next
  case False
  from parse_lines_bad [OF this, of "[]"] assms show ?thesis by auto
qed

lemma parse_lines_result:
  "(\<exists>order. parse_lines orig [] ls = Inr order) \<or>
   (\<exists>n. parse_lines orig [] ls =
      Inl (Errorf ''branch %q not in original downstack, or is duplicated'' [n]))"
proof (cases "distinct (names_of ls) \<and> set (names_of ls) \<subseteq> orig")
  case True
  with parse_lines_good [of ls orig "[]"] show ?thesis by simp
next
  case False
  from parse_lines_bad [OF this, of "[]"] show ?thesis by auto
qed

lemma Scanner_tokens_all:
  "snd (Scanner_tokens data) = None \<Longrightarrow> fst (Scanner_tokens data) = document_lines data"
  by (auto simp: Scanner_tokens_def document_lines_def Let_def list_all_iff takeWhile_eq_all_conv[THEN iffD2] split: if_splits)

lemma Scanner_tokens_cases:
  "Scanner_tokens data = (document_lines data, None) \<or>
   (\<exists>ls. Scanner_tokens data = (ls, Some ErrTooLong))"
  by (auto simp: Scanner_tokens_def document_lines_def Let_def list_all_iff takeWhile_eq_all_conv[THEN iffD2])

subsection \<open>The command, step by step\<close>

lemma onto_loop_reparent:
  "onto_loop d r base xs = reparent d r (zip xs (base # xs))"
  by (induction xs arbitrary: r base) (auto split: prod.splits option.splits)

lemma reparent_cong:
  "(\<And>r x base. x \<in> fst ` set pairs \<Longrightarrow> branchOnto d' r x base = branchOnto d r x base) \<Longrightarrow>
   reparent d' r pairs = reparent d r pairs"
proof (induction pairs arbitrary: r)
  case Nil
  show ?case by simp
next
  case (Cons q pairs)
  obtain x base where q: "q = (x, base)" by (cases q)
  have head: "branchOnto d' r x base = branchOnto d r x base"
    using Cons.prems [of x r base] q by simp
  have tail: "reparent d' r' pairs = reparent d r' pairs" for r'
    using Cons.IH Cons.prems by simp
  show ?case
    by (simp add: q head tail cong: prod.case_cong option.case_cong)
qed

lemma fst_set_zip_self: "fst ` set (zip xs (b # xs)) = set xs"
proof -
  have "map fst (zip xs (b # xs)) = xs"
    by (simp add: map_fst_zip_take)
  then have "set (map fst (zip xs (b # xs))) = set xs" by simp
  then show ?thesis by simp
qed

lemma downstack_Run_listed:
  assumes "lists_downstack d cmd r r1 name downstacks"
  shows "downstackEditCmd_Run d cmd r files =
     (case must_NotBeEmptyf downstacks ''downstack cannot be empty'' of
        Some msg \<Rightarrow> (r1, files, [], Panic msg)
      | None \<Rightarrow>
     (case must_BeEqualf (hd downstacks) name ''downstack must start with the original branch'' of
        Some msg \<Rightarrow> (r1, files, [], Panic msg)
      | None \<Rightarrow>
      if length downstacks = 1
      then (r1, files, [Infof ''nothing to edit below %s'' [name]], Return None)
      else edit_downstacks d cmd r1 files downstacks))"
proof (cases "Name cmd = []")
  case True
  with assms show ?thesis
    by (simp add: lists_downstack_def downstackEditCmd_Run_def)
next
  case False
  with assms show ?thesis
    by (simp add: lists_downstack_def downstackEditCmd_Run_def)
qed

lemma downstack_Run_edit:
  assumes "lists_downstack d cmd r r1 name downstacks"
    and "hd downstacks = name" and "1 < length downstacks"
  shows "downstackEditCmd_Run d cmd r files = edit_downstacks d cmd r1 files downstacks"
  using assms(2,3)
  by (auto simp: downstack_Run_listed [OF assms(1)] must_NotBeEmptyf_def must_BeEqualf_def)

text \<open>The re-parent and checkout commands play no part before the edited document
  has been parsed.\<close>

lemma write_branches_onto:
  "write_branches (d\<lparr>branchOnto := p, branchCheckout := c\<rparr>) file files bs = write_branches d file files bs"
  by (induction bs arbitrary: files) (auto split: prod.splits option.splits)

lemma createEditFile_onto:
  "createEditFile (d\<lparr>branchOnto := p, branchCheckout := c\<rparr>) files bs = createEditFile d files bs"
  by (simp add: createEditFile_def write_branches_onto cong: sum.case_cong prod.case_cong option.case_cong)

lemma lists_downstack_onto:
  "lists_downstack (d\<lparr>branchOnto := p, branchCheckout := c\<rparr>) cmd r r1 name ds =
   lists_downstack d cmd r r1 name ds"
  by (simp add: lists_downstack_def)

lemma edits_document_onto:
  "edits_document (d\<lparr>branchOnto := p, branchCheckout := c\<rparr>) cmd files ds file files1 files2 content =
   edits_document d cmd files ds file files1 files2 content"
  by (simp add: edits_document_def createEditFile_onto)

lemma lists_downstack_session:
  "lists_downstack
     (d\<lparr>os_CreateTemp := t, file_Write := w, file_Close := cl, exec_Run := e,
        branchOnto := p, branchCheckout := c\<rparr>) cmd r r1 name ds =
   lists_downstack d cmd r r1 name ds"
  by (simp add: lists_downstack_def)

lemma edit_downstacks_parsed:
  assumes "edits_document d cmd files downstacks file files1 files2 content"
    and "Scanner_tokens content = (lines, scanner_Err)"
  shows "edit_downstacks d cmd r files downstacks =
     (case parse_lines (set downstacks) [] lines of
        Inl err \<Rightarrow> (r, files2, [], Return (Some err))
      | Inr newOrder \<Rightarrow>
     (case scanner_Err of
        Some err \<Rightarrow> (r, files2, [], Return (Some (Wrap ''read edited file: %w'' [] err)))
      | None \<Rightarrow>
      if newOrder = []
      then (r, files2, [Infof ''downstack edit aborted or nothing to do'' []], Return None)
      else
        (case reparent d r (zip (rev newOrder) (Trunk d r # rev newOrder)) of
           (r', Some err) \<Rightarrow> (r', files2, [], Return (Some err))
         | (r', None) \<Rightarrow>
        (case branchCheckout d r' (hd newOrder) of
           (r'', err) \<Rightarrow> (r'', files2, [], Return err)))))"
  using assms
  by (simp add: edit_downstacks_def edits_document_def fold_insert_set onto_loop_reparent Let_def
      cong: sum.case_cong prod.case_cong option.case_cong if_cong)

lemma edit_downstacks_no_panic:
  "snd (snd (snd (edit_downstacks d cmd r files downstacks))) \<noteq> Panic msg"
  by (simp add: edit_downstacks_def Let_def split: prod.splits option.splits sum.splits)

lemma edit_downstacks_files:
  assumes "createEditFile d files downstacks = (files1, file, None)"
    and "exec_Run d (Editor cmd) file files1 = (files2, e)"
  shows "fst (snd (edit_downstacks d cmd r files downstacks)) = files2"
  using assms
  by (simp add: edit_downstacks_def Let_def split: prod.splits option.splits sum.splits)

lemma list_downstack_Inr:
  assumes "list_downstack r b = Some (Inr chain)"
  shows "chain \<noteq> [] \<and> hd chain = b"
proof -
  have "chain = [b] \<or> (\<exists>below. chain = b # below)"
  proof (cases "store_get r b")
    case None
    with assms show ?thesis
      by (subst (asm) list_downstack.simps) (simp split: if_splits)
  next
    case (Some entry)
    show ?thesis
    proof (cases "b = st_trunk r \<or> base_name entry = st_trunk r")
      case True
      with assms Some show ?thesis
        by (subst (asm) list_downstack.simps) (auto split: if_splits)
    next
      case False
      with assms Some have "Option.bind (list_downstack r (base_name entry))
          (\<lambda>below. Some (case below of Inl err \<Rightarrow> Inl err | Inr below \<Rightarrow> Inr (b # below))) =
          Some (Inr chain)"
        by (subst (asm) list_downstack.simps) simp
      then obtain y :: "error + string list" where
        "(case y of Inl err \<Rightarrow> Inl err | Inr below \<Rightarrow> Inr (b # below)) = Inr chain"
        unfolding Option.bind_eq_Some_conv by auto
      then show ?thesis by (cases y) auto
    qed
  qed
  then show ?thesis by auto
qed

subsection \<open>The reference environment at work\<close>

text \<open>In the reference environment, on the chain of S4 with \<open>C\<close> checked out, the
  command reaches the editor with the downstack \<open>C\<close>, \<open>B\<close>, \<open>A\<close> written to the file,
  and reads back what the editor made of it.\<close>

lemma ref_lists_CBA:
  "lists_downstack (ref_deps edit) edit_cmd chain_ABC chain_ABC ''C'' [''C'', ''B'', ''A'']"
  by (simp add: lists_downstack_def ref_deps_def edit_cmd_def chain_ABC_def
      list_downstack.simps store_get_def)

lemma ref_edits_CBA:
  "edits_document (ref_deps edit) edit_cmd Map.empty [''C'', ''B'', ''A''] ''/tmp/gs-edit-1.txt''
     [''/tmp/gs-edit-1.txt'' \<mapsto> ''C\<newline>B\<newline>A\<newline>'' @ editFooter]
     [''/tmp/gs-edit-1.txt'' \<mapsto> edit (''C\<newline>B\<newline>A\<newline>'' @ editFooter)]
     (edit (''C\<newline>B\<newline>A\<newline>'' @ editFooter))"
  by (simp add: edits_document_def createEditFile_def ref_deps_def errors_Join_def
      List.map_filter_def os_Open_def edit_cmd_def)

lemma ref_run_CBA:
  "downstackEditCmd_Run (ref_deps edit) edit_cmd chain_ABC Map.empty =
   edit_downstacks (ref_deps edit) edit_cmd chain_ABC Map.empty [''C'', ''B'', ''A'']"
  by (rule downstack_Run_edit [OF ref_lists_CBA]) simp_all

lemma tokens_Nil: "Scanner_tokens [] = ([], None)"
  by (simp add: Scanner_tokens_def)

lemma tokens_CXA: "Scanner_tokens ''C\<newline>X\<newline>A\<newline>'' = ([''C'', ''X'', ''A''], None)"
  by (simp add: Scanner_tokens_def fits_def MaxScanTokenSize_def dropCR_def)

lemma names_CXA: "names_of [''C'', ''X'', ''A''] = [''C'', ''X'', ''A'']"
  by (simp add: names_of_def TrimSpace_plain space_runes_def)

lemma names_CA: "names_of [''C'', ''A''] = [''C'', ''A'']"
  by (simp add: names_of_def TrimSpace_plain space_runes_def)

text \<open>The run of S4 in the reference environment.\<close>

lemma S4_tokens:
  "Scanner_tokens (reorder_CAB (''C\<newline>B\<newline>A\<newline>'' @ editFooter)) = (S4_lines, None)"
  by (simp add: Scanner_tokens_def reorder_CAB_def editFooter_def fits_def
      MaxScanTokenSize_def dropCR_def S4_lines_def)

lemma S4_names: "names_of S4_lines = [''C'', ''A'', ''B'']"
  by (simp add: S4_lines_def names_of_def TrimSpace_plain TrimSpace_white white_Nil space_runes_def)

lemma S4_pairs:
  "zip (rev [''C'', ''A'', ''B'']) (Trunk (ref_deps reorder_CAB) chain_ABC # rev [''C'', ''A'', ''B'']) =
   S4_moves"
  by (simp add: S4_moves_def ref_deps_def chain_ABC_def)

lemma S4_reparent: "snd (reparent (ref_deps reorder_CAB) chain_ABC S4_moves) = None"
  by code_simp

lemma S4_checkout:
  "branchCheckout (ref_deps reorder_CAB) (fst (reparent (ref_deps reorder_CAB) chain_ABC S4_moves)) ''C'' =
   (S4_final, None)"
  by code_simp

lemma S4_final_bases:
  "map_option base_name (store_get S4_final ''B'') = Some ''main''"
  "map_option base_name (store_get S4_final ''A'') = Some ''B''"
  "map_option base_name (store_get S4_final ''C'') = Some ''A''"
  "git_head S4_final = ''C''"
  by code_simp+

lemma S4_run:
  "downstackEditCmd_Run (ref_deps reorder_CAB) edit_cmd chain_ABC Map.empty =
   (S4_final, [''/tmp/gs-edit-1.txt'' \<mapsto> reorder_CAB (''C\<newline>B\<newline>A\<newline>'' @ editFooter)],
    [], Return None)"
proof -
  have "parse_lines (set [''C'', ''B'', ''A'']) [] S4_lines = Inr ([] @ names_of S4_lines)"
    by (rule parse_lines_good) (simp_all add: S4_names)
  then have parse: "parse_lines (set [''C'', ''B'', ''A'']) [] S4_lines = Inr [''C'', ''A'', ''B'']"
    by (simp only: S4_names append_Nil)
  show ?thesis
    unfolding ref_run_CBA edit_downstacks_parsed [OF ref_edits_CBA [of reorder_CAB] S4_tokens] parse
    by (simp only: sum.case option.case list.simps if_False S4_pairs case_prod_beta
        S4_reparent S4_checkout list.sel fst_conv snd_conv)
qed

text \<open>The runs with an editor that fails, with a name that is not in the chain, and
  with every line deleted.\<close>

lemma editor_fails_run:
  "downstackEditCmd_Run editor_fails edit_cmd chain_ABC Map.empty =
   (chain_ABC, [''/tmp/gs-edit-1.txt'' \<mapsto> ''C\<newline>B\<newline>A\<newline>'' @ editFooter], [],
    Return (Some (Wrap ''run editor: %w'' [] (Errorf ''exit status 1'' []))))"
proof -
  have l: "lists_downstack editor_fails edit_cmd chain_ABC chain_ABC ''C'' [''C'', ''B'', ''A'']"
    by (simp add: lists_downstack_def editor_fails_def ref_deps_def edit_cmd_def chain_ABC_def
        list_downstack.simps store_get_def)
  have "edit_downstacks editor_fails edit_cmd chain_ABC Map.empty [''C'', ''B'', ''A''] =
   (chain_ABC, [''/tmp/gs-edit-1.txt'' \<mapsto> ''C\<newline>B\<newline>A\<newline>'' @ editFooter], [],
    Return (Some (Wrap ''run editor: %w'' [] (Errorf ''exit status 1'' []))))"
    by (simp add: edit_downstacks_def createEditFile_def editor_fails_def ref_deps_def
        errors_Join_def List.map_filter_def edit_cmd_def)
  with downstack_Run_edit [OF l] show ?thesis by simp
qed

lemma replace_B_by_X_run:
  "downstackEditCmd_Run (ref_deps replace_B_by_X) edit_cmd chain_ABC Map.empty =
   (chain_ABC, [''/tmp/gs-edit-1.txt'' \<mapsto> ''C\<newline>X\<newline>A\<newline>''], [],
    Return (Some (Errorf ''branch %q not in original downstack, or is duplicated'' [''X''])))"
proof -
  have sc: "Scanner_tokens (replace_B_by_X (''C\<newline>B\<newline>A\<newline>'' @ editFooter)) =
      ([''C'', ''X'', ''A''], None)"
    by (simp only: replace_B_by_X_def tokens_CXA)
  have parse: "parse_lines (set [''C'', ''B'', ''A'']) [] [''C'', ''X'', ''A''] =
      Inl (Errorf ''branch %q not in original downstack, or is duplicated'' [''X''])"
    by (simp add: TrimSpace_plain space_runes_def)
  show ?thesis
    unfolding ref_run_CBA edit_downstacks_parsed [OF ref_edits_CBA [of replace_B_by_X] sc] parse
    by (simp add: replace_B_by_X_def)
qed

lemma delete_all_run:
  "downstackEditCmd_Run (ref_deps delete_all) edit_cmd chain_ABC Map.empty =
   (chain_ABC, [''/tmp/gs-edit-1.txt'' \<mapsto> []],
    [Infof ''downstack edit aborted or nothing to do'' []], Return None)"
proof -
  have sc: "Scanner_tokens (delete_all (''C\<newline>B\<newline>A\<newline>'' @ editFooter)) = ([], None)"
    by (simp only: delete_all_def tokens_Nil)
  show ?thesis
    unfolding ref_run_CBA edit_downstacks_parsed [OF ref_edits_CBA [of delete_all] sc]
    by (simp add: delete_all_def)
qed

subsection \<open>The claims\<close>

text \<open>
  C2. After parsing, the list of names is reversed and re-parented bottom-up: the first
  branch of the reversed list is moved onto the trunk, every later one onto the branch
  before it (\<open>zip xs (trunk # xs)\<close> pairs each branch of \<open>xs\<close> with its new base). When
  all moves succeed, the first name of the edited list is checked out, and the result of
  that checkout is the result of the command. For the input of S4, the instance below,
  the moves are \<open>B\<close> onto \<open>main\<close>, \<open>A\<close> onto \<open>B\<close>, \<open>C\<close> onto \<open>A\<close>, and the work tree
  ends on \<open>C\<close>.
\<close>

theorem downstack_edit_reparents:
  assumes "lists_downstack d cmd r r1 name downstacks"
    and "hd downstacks = name" and "1 < length downstacks"
    and "edits_document d cmd files downstacks file files1 files2 content"
    and "Scanner_tokens content = (lines, None)"
    and "distinct (names_of lines)" and "set (names_of lines) \<subseteq> set downstacks"
    and "names_of lines \<noteq> []"
  shows "downstackEditCmd_Run d cmd r files =
     (case reparent d r1 (zip (rev (names_of lines)) (Trunk d r1 # rev (names_of lines))) of
        (r', Some err) \<Rightarrow> (r', files2, [], Return (Some err))
      | (r', None) \<Rightarrow>
          (case branchCheckout d r' (hd (names_of lines)) of
             (r'', err) \<Rightarrow> (r'', files2, [], Return err)))"
proof -
  have "parse_lines (set downstacks) [] lines = Inr (names_of lines)"
    using parse_lines_good [OF assms(6,7), of "[]"] by simp
  then show ?thesis
    using downstack_Run_edit [OF assms(1-3)] edit_downstacks_parsed [OF assms(4,5)] assms(8)
    by simp
qed

theorem downstack_edit_reparents_witness:
  "names_of (fst (Scanner_tokens (reorder_CAB (''C\<newline>B\<newline>A\<newline>'' @ editFooter)))) = [''C'', ''A'', ''B''] \<and>
   zip (rev [''C'', ''A'', ''B'']) (Trunk (ref_deps reorder_CAB) chain_ABC # rev [''C'', ''A'', ''B'']) =
     [(''B'', ''main''), (''A'', ''B''), (''C'', ''A'')] \<and>
   map_option base_name (store_get (fst (downstackEditCmd_Run (ref_deps reorder_CAB) edit_cmd chain_ABC Map.empty)) ''B'') = Some ''main'' \<and>
   map_option base_name (store_get (fst (downstackEditCmd_Run (ref_deps reorder_CAB) edit_cmd chain_ABC Map.empty)) ''A'') = Some ''B'' \<and>
   map_option base_name (store_get (fst (downstackEditCmd_Run (ref_deps reorder_CAB) edit_cmd chain_ABC Map.empty)) ''C'') = Some ''A'' \<and>
   git_head (fst (downstackEditCmd_Run (ref_deps reorder_CAB) edit_cmd chain_ABC Map.empty)) = ''C'' \<and>
   snd (snd (snd (downstackEditCmd_Run (ref_deps reorder_CAB) edit_cmd chain_ABC Map.empty))) = Return None"
proof -
  let ?d = "ref_deps reorder_CAB"
  let ?ds = "[''C'', ''B'', ''A'']"
  let ?files2 = "[''/tmp/gs-edit-1.txt'' \<mapsto> reorder_CAB (''C\<newline>B\<newline>A\<newline>'' @ editFooter)]"
  have hd_ds: "hd ?ds = ''C''" by simp
  have len_ds: "1 < length ?ds" by simp
  have n1: "distinct (names_of S4_lines)" unfolding S4_names by simp
  have n2: "set (names_of S4_lines) \<subseteq> set ?ds" unfolding S4_names by simp
  have n3: "names_of S4_lines \<noteq> []" unfolding S4_names by simp
  have "downstackEditCmd_Run ?d edit_cmd chain_ABC Map.empty =
     (case reparent ?d chain_ABC (zip (rev (names_of S4_lines)) (Trunk ?d chain_ABC # rev (names_of S4_lines))) of
        (r', Some err) \<Rightarrow> (r', ?files2, [], Return (Some err))
      | (r', None) \<Rightarrow>
          (case branchCheckout ?d r' (hd (names_of S4_lines)) of
             (r'', err) \<Rightarrow> (r'', ?files2, [], Return err)))"
    by (rule downstack_edit_reparents [OF ref_lists_CBA [of reorder_CAB] hd_ds len_ds
        ref_edits_CBA [of reorder_CAB] S4_tokens n1 n2 n3])
  then have run: "downstackEditCmd_Run ?d edit_cmd chain_ABC Map.empty = (S4_final, ?files2, [], Return None)"
    by (simp only: S4_names S4_pairs case_prod_beta S4_reparent S4_checkout option.case list.sel
        fst_conv snd_conv)
  have n: "names_of (fst (Scanner_tokens (reorder_CAB (''C\<newline>B\<newline>A\<newline>'' @ editFooter)))) = [''C'', ''A'', ''B'']"
    unfolding S4_tokens fst_conv by (rule S4_names)
  have z: "zip (rev [''C'', ''A'', ''B'']) (Trunk ?d chain_ABC # rev [''C'', ''A'', ''B'']) =
     [(''B'', ''main''), (''A'', ''B''), (''C'', ''A'')]"
    unfolding S4_pairs by (simp add: S4_moves_def)
  show ?thesis
    unfolding run fst_conv snd_conv
    by (intro conjI n z S4_final_bases refl)
qed

text \<open>
  C4. (1) Whenever the parser succeeds, the list it returns is the list of the lines that
  are neither blank nor comments, in order, and these are distinct names of the chain.
  (2) When a line that the scanner delivers names a branch that is not in the chain, or
  these lines name a branch twice, the command fails with the error for an invalid name,
  leaves the repository as \<^verbatim>\<open>ensureStore\<close> left it, and has invoked no re-parent and
  no checkout (the result is the same whatever these commands are). (3) The same holds,
  with some error, when the offending line is anywhere in the document: a line too long
  for the scanner before it makes the command fail as well, at the scanner. (4) The
  re-parent command is never run on a name that the document omits: changing it on
  such names changes nothing.
\<close>

theorem downstack_edit_invalid:
  assumes "lists_downstack d cmd r r1 name downstacks"
    and "hd downstacks = name" and "1 < length downstacks"
    and "edits_document d cmd files downstacks file files1 files2 content"
  shows
    "(\<forall>lines order. parse_lines (fold insert downstacks {}) [] lines = Inr order \<longrightarrow>
        order = names_of lines \<and> distinct order \<and> set order \<subseteq> set downstacks) \<and>
     ((\<exists>n \<in> set (names_of (fst (Scanner_tokens content))). n \<notin> set downstacks) \<or>
      \<not> distinct (names_of (fst (Scanner_tokens content))) \<longrightarrow>
        (\<exists>n. downstackEditCmd_Run d cmd r files =
               (r1, files2, [],
                Return (Some (Errorf ''branch %q not in original downstack, or is duplicated'' [n]))) \<and>
             (\<forall>p c. downstackEditCmd_Run (d\<lparr>branchOnto := p, branchCheckout := c\<rparr>) cmd r files =
               (r1, files2, [],
                Return (Some (Errorf ''branch %q not in original downstack, or is duplicated'' [n])))))) \<and>
     ((\<exists>n \<in> set (names_of (document_lines content)). n \<notin> set downstacks) \<or>
      \<not> distinct (names_of (document_lines content)) \<longrightarrow>
        (\<exists>e. downstackEditCmd_Run d cmd r files = (r1, files2, [], Return (Some e)) \<and>
             (\<forall>p c. downstackEditCmd_Run (d\<lparr>branchOnto := p, branchCheckout := c\<rparr>) cmd r files =
                      (r1, files2, [], Return (Some e))))) \<and>
     (\<forall>p. (\<forall>r' x base. x \<in> set (names_of (document_lines content)) \<longrightarrow>
                p r' x base = branchOnto d r' x base) \<longrightarrow>
          downstackEditCmd_Run (d\<lparr>branchOnto := p\<rparr>) cmd r files =
          downstackEditCmd_Run d cmd r files)"
proof -
  let ?doc = "document_lines content"
  let ?fmt = "''branch %q not in original downstack, or is duplicated''"
  obtain ls serr where sc: "Scanner_tokens content = (ls, serr)"
    by (cases "Scanner_tokens content")
  have run: "downstackEditCmd_Run d' cmd r files =
      (case parse_lines (set downstacks) [] ls of
         Inl err \<Rightarrow> (r1, files2, [], Return (Some err))
       | Inr newOrder \<Rightarrow>
      (case serr of
         Some err \<Rightarrow> (r1, files2, [], Return (Some (Wrap ''read edited file: %w'' [] err)))
       | None \<Rightarrow>
       if newOrder = []
       then (r1, files2, [Infof ''downstack edit aborted or nothing to do'' []], Return None)
       else
         (case reparent d' r1 (zip (rev newOrder) (Trunk d' r1 # rev newOrder)) of
            (r', Some err) \<Rightarrow> (r', files2, [], Return (Some err))
          | (r', None) \<Rightarrow>
         (case branchCheckout d' r' (hd newOrder) of
            (r'', err) \<Rightarrow> (r'', files2, [], Return err)))))"
    if "lists_downstack d' cmd r r1 name downstacks"
      and "edits_document d' cmd files downstacks file files1 files2 content"
    for d' :: "'a deps"
    using downstack_Run_edit [OF that(1) assms(2,3)] edit_downstacks_parsed [OF that(2) sc]
    by simp
  have run_d: "downstackEditCmd_Run d cmd r files = (r1, files2, [], Return (Some e))"
    and run_any: "downstackEditCmd_Run (d\<lparr>branchOnto := p, branchCheckout := c\<rparr>) cmd r files =
      (r1, files2, [], Return (Some e))"
    if "parse_lines (set downstacks) [] ls = Inl e \<or>
        (\<exists>order. parse_lines (set downstacks) [] ls = Inr order) \<and>
        (\<exists>err. serr = Some err \<and> e = Wrap ''read edited file: %w'' [] err)"
    for e p c
  proof -
    show "downstackEditCmd_Run d cmd r files = (r1, files2, [], Return (Some e))"
      using run [OF assms(1,4)] that by auto
    have "lists_downstack (d\<lparr>branchOnto := p, branchCheckout := c\<rparr>) cmd r r1 name downstacks"
      and "edits_document (d\<lparr>branchOnto := p, branchCheckout := c\<rparr>) cmd files downstacks
             file files1 files2 content"
      by (simp_all add: lists_downstack_onto edits_document_onto assms(1,4))
    from run [OF this] that
    show "downstackEditCmd_Run (d\<lparr>branchOnto := p, branchCheckout := c\<rparr>) cmd r files =
        (r1, files2, [], Return (Some e))"
      by auto
  qed
  have collects: "order = names_of lines \<and> distinct order \<and> set order \<subseteq> set downstacks"
    if "parse_lines (fold insert downstacks {}) [] lines = Inr order" for lines order
  proof -
    from that have "parse_lines (set downstacks) [] lines = Inr order"
      by (simp add: fold_insert_set)
    then show ?thesis by (rule parse_lines_Inr)
  qed
  have scanned: "\<exists>n. downstackEditCmd_Run d cmd r files = (r1, files2, [], Return (Some (Errorf ?fmt [n]))) \<and>
      (\<forall>p c. downstackEditCmd_Run (d\<lparr>branchOnto := p, branchCheckout := c\<rparr>) cmd r files =
        (r1, files2, [], Return (Some (Errorf ?fmt [n]))))"
    if "(\<exists>n \<in> set (names_of (fst (Scanner_tokens content))). n \<notin> set downstacks) \<or>
        \<not> distinct (names_of (fst (Scanner_tokens content)))"
  proof -
    from that sc have "\<not> (distinct (names_of ls) \<and> set (names_of ls) \<subseteq> set downstacks)"
      by auto
    from parse_lines_bad [OF this, of "[]"] obtain n where
      "parse_lines (set downstacks) [] ls = Inl (Errorf ?fmt [n])"
      by blast
    then show ?thesis
      using run_d [of "Errorf ?fmt [n]"] run_any [of "Errorf ?fmt [n]"] by blast
  qed
  have anywhere: "\<exists>e. downstackEditCmd_Run d cmd r files = (r1, files2, [], Return (Some e)) \<and>
      (\<forall>p c. downstackEditCmd_Run (d\<lparr>branchOnto := p, branchCheckout := c\<rparr>) cmd r files =
        (r1, files2, [], Return (Some e)))"
    if bad: "(\<exists>n \<in> set (names_of ?doc). n \<notin> set downstacks) \<or> \<not> distinct (names_of ?doc)"
  proof -
    from Scanner_tokens_cases [of content] sc
    consider (all) "ls = ?doc" | (long) "serr = Some ErrTooLong" by auto
    then show ?thesis
    proof cases
      case all
      with bad sc scanned show ?thesis by auto
    next
      case long
      from parse_lines_result [of "set downstacks" ls]
      obtain e where "parse_lines (set downstacks) [] ls = Inl e \<or>
        (\<exists>order. parse_lines (set downstacks) [] ls = Inr order) \<and>
        (\<exists>err. serr = Some err \<and> e = Wrap ''read edited file: %w'' [] err)"
        using long by auto
      then show ?thesis
        using run_d [of e] run_any [of e] by blast
    qed
  qed
  have omitted: "downstackEditCmd_Run (d\<lparr>branchOnto := p\<rparr>) cmd r files =
      downstackEditCmd_Run d cmd r files"
    if agree: "\<forall>r' x base. x \<in> set (names_of ?doc) \<longrightarrow> p r' x base = branchOnto d r' x base"
    for p
  proof -
    let ?d' = "d\<lparr>branchOnto := p\<rparr>"
    have d': "?d' = d\<lparr>branchOnto := p, branchCheckout := branchCheckout d\<rparr>" by simp
    have l': "lists_downstack ?d' cmd r r1 name downstacks"
      using assms(1) lists_downstack_onto [where d = d and p = p and c = "branchCheckout d"]
      by (simp only: d' [symmetric])
    have e': "edits_document ?d' cmd files downstacks file files1 files2 content"
      using assms(4) edits_document_onto [where d = d and p = p and c = "branchCheckout d"]
      by (simp only: d' [symmetric])
    have rp: "reparent ?d' r1 (zip (rev newOrder) (Trunk d r1 # rev newOrder)) =
              reparent d r1 (zip (rev newOrder) (Trunk d r1 # rev newOrder))"
      if "parse_lines (set downstacks) [] ls = Inr newOrder" and "serr = None" for newOrder
    proof (rule reparent_cong)
      fix r' x base
      assume "x \<in> fst ` set (zip (rev newOrder) (Trunk d r1 # rev newOrder))"
      then have "x \<in> set newOrder" by (simp add: fst_set_zip_self)
      moreover have "newOrder = names_of ls" using parse_lines_Inr [OF that(1)] by simp
      moreover have "ls = ?doc" using Scanner_tokens_all [of content] sc that(2) by simp
      ultimately show "branchOnto ?d' r' x base = branchOnto d r' x base"
        using agree by simp
    qed
    show ?thesis
      using rp by (simp add: run [OF l' e'] run [OF assms(1,4)] split: sum.splits option.splits)
  qed
  from collects scanned anywhere omitted show ?thesis
    by blast
qed

theorem downstack_edit_invalid_witness:
  "parse_lines (fold insert [''C'', ''B'', ''A''] {}) [] [''C'', ''A''] = Inr [''C'', ''A''] \<and>
   [''C'', ''A''] = names_of [''C'', ''A''] \<and>
   ''X'' \<in> set (names_of (fst (Scanner_tokens (replace_B_by_X (''C\<newline>B\<newline>A\<newline>'' @ editFooter))))) \<and>
   ''X'' \<in> set (names_of (document_lines (replace_B_by_X (''C\<newline>B\<newline>A\<newline>'' @ editFooter)))) \<and>
   ''X'' \<notin> set [''C'', ''B'', ''A''] \<and>
   fst (downstackEditCmd_Run (ref_deps replace_B_by_X) edit_cmd chain_ABC Map.empty) = chain_ABC \<and>
   (\<exists>n. snd (snd (snd (downstackEditCmd_Run (ref_deps replace_B_by_X) edit_cmd chain_ABC Map.empty))) =
        Return (Some (Errorf ''branch %q not in original downstack, or is duplicated'' [n]))) \<and>
   (\<exists>e. downstackEditCmd_Run (ref_deps replace_B_by_X) edit_cmd chain_ABC Map.empty =
        (chain_ABC, [''/tmp/gs-edit-1.txt'' \<mapsto> replace_B_by_X (''C\<newline>B\<newline>A\<newline>'' @ editFooter)], [],
         Return (Some e))) \<and>
   names_of (document_lines (leave_out_B (''C\<newline>B\<newline>A\<newline>'' @ editFooter))) = [''C'', ''A''] \<and>
   downstackEditCmd_Run
     ((ref_deps leave_out_B)\<lparr>branchOnto :=
        (\<lambda>r x base. if x = ''B'' then (r, Some (New ''not to be called'')) else onto r x base)\<rparr>)
     edit_cmd chain_ABC Map.empty =
   downstackEditCmd_Run (ref_deps leave_out_B) edit_cmd chain_ABC Map.empty"
proof -
  let ?written = "''C\<newline>B\<newline>A\<newline>'' @ editFooter"
  let ?ds = "[''C'', ''B'', ''A'']"
  let ?fmt = "''branch %q not in original downstack, or is duplicated''"
  let ?p = "\<lambda>r x base. if x = ''B'' then (r, Some (New ''not to be called'')) else onto r x base"
  let ?run = "downstackEditCmd_Run (ref_deps replace_B_by_X) edit_cmd chain_ABC Map.empty"
  have hd_ds: "hd ?ds = ''C''" by simp
  have len_ds: "1 < length ?ds" by simp
  note tX = downstack_edit_invalid
    [OF ref_lists_CBA [of replace_B_by_X] hd_ds len_ds ref_edits_CBA [of replace_B_by_X]]
  note tA = downstack_edit_invalid
    [OF ref_lists_CBA [of leave_out_B] hd_ds len_ds ref_edits_CBA [of leave_out_B]]
  have parse: "parse_lines (fold insert ?ds {}) [] [''C'', ''A''] = Inr [''C'', ''A'']"
    by (simp add: TrimSpace_plain space_runes_def)
  from tX [THEN conjunct1, rule_format, OF parse]
  have collected: "[''C'', ''A''] = names_of [''C'', ''A'']"
    by (rule conjunct1)
  have scX: "names_of (fst (Scanner_tokens (replace_B_by_X ?written))) = [''C'', ''X'', ''A'']"
    by (simp only: replace_B_by_X_def tokens_CXA fst_conv names_CXA)
  have docX: "names_of (document_lines (replace_B_by_X ?written)) = [''C'', ''X'', ''A'']"
    by (simp add: document_lines_def replace_B_by_X_def dropCR_def names_CXA)
  have bad_sc: "(\<exists>n \<in> set (names_of (fst (Scanner_tokens (replace_B_by_X ?written)))). n \<notin> set ?ds) \<or>
      \<not> distinct (names_of (fst (Scanner_tokens (replace_B_by_X ?written))))"
    unfolding scX by simp
  have bad_doc: "(\<exists>n \<in> set (names_of (document_lines (replace_B_by_X ?written))). n \<notin> set ?ds) \<or>
      \<not> distinct (names_of (document_lines (replace_B_by_X ?written)))"
    unfolding docX by simp
  from tX [THEN conjunct2, THEN conjunct1, THEN mp, OF bad_sc] obtain n where
    run: "?run = (chain_ABC, [''/tmp/gs-edit-1.txt'' \<mapsto> replace_B_by_X ?written], [],
        Return (Some (Errorf ?fmt [n])))"
    by blast
  from tX [THEN conjunct2, THEN conjunct2, THEN conjunct1, THEN mp, OF bad_doc]
  have r3: "\<exists>e. ?run = (chain_ABC, [''/tmp/gs-edit-1.txt'' \<mapsto> replace_B_by_X ?written], [],
        Return (Some e))"
    by blast
  have docA: "names_of (document_lines (leave_out_B ?written)) = [''C'', ''A'']"
    by (simp add: document_lines_def leave_out_B_def dropCR_def names_CA)
  have agree: "\<forall>r' x base. x \<in> set (names_of (document_lines (leave_out_B ?written))) \<longrightarrow>
      ?p r' x base = branchOnto (ref_deps leave_out_B) r' x base"
    unfolding docA by (simp add: ref_deps_def)
  from tA [THEN conjunct2, THEN conjunct2, THEN conjunct2, THEN spec, THEN mp, OF agree]
  have same: "downstackEditCmd_Run ((ref_deps leave_out_B)\<lparr>branchOnto := ?p\<rparr>) edit_cmd chain_ABC Map.empty =
      downstackEditCmd_Run (ref_deps leave_out_B) edit_cmd chain_ABC Map.empty" .
  have x0: "''X'' \<in> set (names_of (fst (Scanner_tokens (replace_B_by_X ?written))))"
    unfolding scX by simp
  have x1: "''X'' \<in> set (names_of (document_lines (replace_B_by_X ?written)))"
    unfolding docX by simp
  have x2: "''X'' \<notin> set ?ds" by simp
  have r1: "fst ?run = chain_ABC"
    unfolding run by simp
  have r2: "\<exists>n. snd (snd (snd ?run)) = Return (Some (Errorf ?fmt [n]))"
    unfolding run by simp
  show ?thesis
    by (intro conjI parse collected x0 x1 x2 r1 r2 r3 docA same)
qed

text \<open>
  C5. The specification has the temporary file deleted on all exit paths. The command
  has no such step: in the reference environment the file is still there after a run
  that succeeds, after one that fails on an unknown name, after one whose editor fails,
  and after one that is aborted.
\<close>

theorem temp_file_survives:
  "snd (snd (snd (downstackEditCmd_Run (ref_deps reorder_CAB) edit_cmd chain_ABC Map.empty))) = Return None \<and>
   fst (snd (downstackEditCmd_Run (ref_deps reorder_CAB) edit_cmd chain_ABC Map.empty)) ''/tmp/gs-edit-1.txt'' =
     Some (reorder_CAB (''C\<newline>B\<newline>A\<newline>'' @ editFooter)) \<and>
   snd (snd (snd (downstackEditCmd_Run (ref_deps replace_B_by_X) edit_cmd chain_ABC Map.empty))) =
     Return (Some (Errorf ''branch %q not in original downstack, or is duplicated'' [''X''])) \<and>
   fst (snd (downstackEditCmd_Run (ref_deps replace_B_by_X) edit_cmd chain_ABC Map.empty)) ''/tmp/gs-edit-1.txt'' =
     Some ''C\<newline>X\<newline>A\<newline>'' \<and>
   snd (snd (snd (downstackEditCmd_Run editor_fails edit_cmd chain_ABC Map.empty))) =
     Return (Some (Wrap ''run editor: %w'' [] (Errorf ''exit status 1'' []))) \<and>
   fst (snd (downstackEditCmd_Run editor_fails edit_cmd chain_ABC Map.empty)) ''/tmp/gs-edit-1.txt'' =
     Some (''C\<newline>B\<newline>A\<newline>'' @ editFooter) \<and>
   snd (snd (snd (downstackEditCmd_Run (ref_deps delete_all) edit_cmd chain_ABC Map.empty))) = Return None \<and>
   fst (snd (downstackEditCmd_Run (ref_deps delete_all) edit_cmd chain_ABC Map.empty)) ''/tmp/gs-edit-1.txt'' =
     Some []"
  unfolding S4_run replace_B_by_X_run editor_fails_run delete_all_run
  by simp

text \<open>
  C5, as amended. No path of the command deletes the temporary file: once
  \<^verbatim>\<open>createEditFile\<close> has returned the file and the editor has run, whatever the editor
  returned and however the command ends after it (editor failure, unreadable file, parse
  error, abort, failed re-parent, success), the files are exactly as the editor left
  them.
\<close>

theorem temp_file_is_kept:
  assumes "lists_downstack d cmd r r1 name downstacks"
    and "hd downstacks = name" and "1 < length downstacks"
    and "createEditFile d files downstacks = (files1, file, None)"
    and "exec_Run d (Editor cmd) file files1 = (files2, e)"
  shows "fst (snd (downstackEditCmd_Run d cmd r files)) = files2"
  using downstack_Run_edit [OF assms(1-3)] edit_downstacks_files [OF assms(4,5)]
  by simp

theorem temp_file_is_kept_witness:
  "createEditFile (ref_deps reorder_CAB) Map.empty [''C'', ''B'', ''A''] =
     ([''/tmp/gs-edit-1.txt'' \<mapsto> ''C\<newline>B\<newline>A\<newline>'' @ editFooter], ''/tmp/gs-edit-1.txt'', None) \<and>
   fst (snd (downstackEditCmd_Run (ref_deps reorder_CAB) edit_cmd chain_ABC Map.empty)) =
     [''/tmp/gs-edit-1.txt'' \<mapsto> reorder_CAB (''C\<newline>B\<newline>A\<newline>'' @ editFooter)]"
proof -
  let ?d = "ref_deps reorder_CAB"
  from ref_edits_CBA [of reorder_CAB]
  have c: "createEditFile ?d Map.empty [''C'', ''B'', ''A''] =
      ([''/tmp/gs-edit-1.txt'' \<mapsto> ''C\<newline>B\<newline>A\<newline>'' @ editFooter], ''/tmp/gs-edit-1.txt'', None)"
    and e: "exec_Run ?d (Editor edit_cmd) ''/tmp/gs-edit-1.txt''
        [''/tmp/gs-edit-1.txt'' \<mapsto> ''C\<newline>B\<newline>A\<newline>'' @ editFooter] =
      ([''/tmp/gs-edit-1.txt'' \<mapsto> reorder_CAB (''C\<newline>B\<newline>A\<newline>'' @ editFooter)], None)"
    by (simp_all add: edits_document_def)
  from temp_file_is_kept [OF ref_lists_CBA [of reorder_CAB] _ _ c e] c show ?thesis by simp
qed

text \<open>
  C6. When the edited document holds no name, the command logs that the edit was
  aborted and returns nil; the repository is as \<^verbatim>\<open>ensureStore\<close> left it, and no
  re-parent and no checkout has been invoked.
\<close>

theorem downstack_edit_aborted:
  assumes "lists_downstack d cmd r r1 name downstacks"
    and "hd downstacks = name" and "1 < length downstacks"
    and "edits_document d cmd files downstacks file files1 files2 content"
    and "Scanner_tokens content = (lines, None)"
    and "names_of lines = []"
  shows "downstackEditCmd_Run d cmd r files =
           (r1, files2, [Infof ''downstack edit aborted or nothing to do'' []], Return None) \<and>
         (\<forall>p c. downstackEditCmd_Run (d\<lparr>branchOnto := p, branchCheckout := c\<rparr>) cmd r files =
           (r1, files2, [Infof ''downstack edit aborted or nothing to do'' []], Return None))"
proof -
  have run: "downstackEditCmd_Run d' cmd r files =
           (r1, files2, [Infof ''downstack edit aborted or nothing to do'' []], Return None)"
    if l: "lists_downstack d' cmd r r1 name downstacks"
      and e: "edits_document d' cmd files downstacks file files1 files2 content"
    for d' :: "'a deps"
  proof -
    have "parse_lines (set downstacks) [] lines = Inr []"
      using parse_lines_good [of lines "set downstacks" "[]"] assms(6) by simp
    then show ?thesis
      using downstack_Run_edit [OF l assms(2,3)] edit_downstacks_parsed [OF e assms(5)]
      by simp
  qed
  show ?thesis
    using run [OF assms(1,4)] run [unfolded lists_downstack_onto edits_document_onto, OF assms(1,4)]
    by (simp add: run lists_downstack_onto edits_document_onto assms(1,4))
qed

theorem downstack_edit_aborted_witness:
  "names_of (fst (Scanner_tokens (delete_all (''C\<newline>B\<newline>A\<newline>'' @ editFooter)))) = [] \<and>
   downstackEditCmd_Run (ref_deps delete_all) edit_cmd chain_ABC Map.empty =
     (chain_ABC, [''/tmp/gs-edit-1.txt'' \<mapsto> []],
      [Infof ''downstack edit aborted or nothing to do'' []], Return None)"
proof -
  have sc: "Scanner_tokens (delete_all (''C\<newline>B\<newline>A\<newline>'' @ editFooter)) = ([], None)"
    by (simp add: delete_all_def tokens_Nil)
  have n: "names_of [] = []" by (simp add: names_of_def)
  have "downstackEditCmd_Run (ref_deps delete_all) edit_cmd chain_ABC Map.empty =
     (chain_ABC, [''/tmp/gs-edit-1.txt'' \<mapsto> delete_all (''C\<newline>B\<newline>A\<newline>'' @ editFooter)],
      [Infof ''downstack edit aborted or nothing to do'' []], Return None)"
    using downstack_edit_aborted [OF ref_lists_CBA [of delete_all] _ _ ref_edits_CBA [of delete_all] sc n] by simp
  then have "downstackEditCmd_Run (ref_deps delete_all) edit_cmd chain_ABC Map.empty =
     (chain_ABC, [''/tmp/gs-edit-1.txt'' \<mapsto> []],
      [Infof ''downstack edit aborted or nothing to do'' []], Return None)"
    by (simp add: delete_all_def)
  moreover have "names_of (fst (Scanner_tokens (delete_all (''C\<newline>B\<newline>A\<newline>'' @ editFooter)))) = []"
    by (simp only: sc fst_conv n)
  ultimately show ?thesis by blast
qed

text \<open>
  C8. When the downstack of the branch is the branch alone, the command logs that there
  is nothing to edit and returns nil. The files and the repository are untouched; the
  temporary file, the editor, the re-parent and the checkout play no part.
\<close>

theorem downstack_edit_nothing_to_edit:
  assumes "lists_downstack d cmd r r1 name [name]"
  shows "downstackEditCmd_Run d cmd r files =
           (r1, files, [Infof ''nothing to edit below %s'' [name]], Return None) \<and>
         (\<forall>t w cl e p c.
            downstackEditCmd_Run
              (d\<lparr>os_CreateTemp := t, file_Write := w, file_Close := cl, exec_Run := e,
                 branchOnto := p, branchCheckout := c\<rparr>) cmd r files =
            (r1, files, [Infof ''nothing to edit below %s'' [name]], Return None))"
proof -
  have "downstackEditCmd_Run d' cmd r files =
      (r1, files, [Infof ''nothing to edit below %s'' [name]], Return None)"
    if "lists_downstack d' cmd r r1 name [name]" for d' :: "'a deps"
    by (simp add: downstack_Run_listed [OF that] must_NotBeEmptyf_def must_BeEqualf_def)
  then show ?thesis
    using assms by (simp add: lists_downstack_session)
qed

theorem downstack_edit_nothing_to_edit_witness:
  "ListDownstack (ref_deps id) on_A ''A'' = Inr [''A''] \<and>
   downstackEditCmd_Run (ref_deps id) edit_cmd on_A Map.empty =
     (on_A, Map.empty, [Infof ''nothing to edit below %s'' [''A'']], Return None)"
proof -
  have d: "ListDownstack (ref_deps id) on_A ''A'' = Inr [''A'']"
    by (simp add: ref_deps_def on_A_def chain_ABC_def list_downstack.simps store_get_def)
  have l: "lists_downstack (ref_deps id) edit_cmd on_A on_A ''A'' [''A'']"
    unfolding lists_downstack_def
    by (simp add: d) (simp add: ref_deps_def edit_cmd_def on_A_def chain_ABC_def)
  from downstack_edit_nothing_to_edit [OF l] d show ?thesis by blast
qed

text \<open>
  C9. Whenever \<open>list_downstack\<close> returns a chain for \<open>b\<close>, the chain is not empty and
  starts with \<open>b\<close>, so neither assertion fires; with a \<open>ListDownstack\<close> that returns only
  such chains the command never panics.
\<close>

theorem downstack_assertions_hold:
  "(list_downstack r b = Some (Inr chain) \<longrightarrow>
      chain \<noteq> [] \<and> hd chain = b \<and>
      must_NotBeEmptyf chain ''downstack cannot be empty'' = None \<and>
      must_BeEqualf (hd chain) b ''downstack must start with the original branch'' = None) \<and>
   ((\<forall>r' b' chain'. ListDownstack d r' b' = Inr chain' \<longrightarrow> list_downstack r' b' = Some (Inr chain')) \<longrightarrow>
      (\<forall>msg. snd (snd (snd (downstackEditCmd_Run d cmd r files))) \<noteq> Panic msg))"
proof (rule conjI)
  show "list_downstack r b = Some (Inr chain) \<longrightarrow>
      chain \<noteq> [] \<and> hd chain = b \<and>
      must_NotBeEmptyf chain ''downstack cannot be empty'' = None \<and>
      must_BeEqualf (hd chain) b ''downstack must start with the original branch'' = None"
    using list_downstack_Inr [of r b chain]
    by (simp add: must_NotBeEmptyf_def must_BeEqualf_def)
next
  show "(\<forall>r' b' chain'. ListDownstack d r' b' = Inr chain' \<longrightarrow> list_downstack r' b' = Some (Inr chain')) \<longrightarrow>
      (\<forall>msg. snd (snd (snd (downstackEditCmd_Run d cmd r files))) \<noteq> Panic msg)"
  proof (intro impI allI)
    fix msg
    assume impl: "\<forall>r' b' chain'. ListDownstack d r' b' = Inr chain' \<longrightarrow>
      list_downstack r' b' = Some (Inr chain')"
    have ok: "chain' \<noteq> [] \<and> hd chain' = b'" if "ListDownstack d r' b' = Inr chain'" for r' b' chain'
      using impl that list_downstack_Inr by blast
    show "snd (snd (snd (downstackEditCmd_Run d cmd r files))) \<noteq> Panic msg"
      using ok
      by (auto simp: downstackEditCmd_Run_def must_NotBeEmptyf_def must_BeEqualf_def
          edit_downstacks_no_panic split: prod.splits option.splits sum.splits if_splits)
  qed
qed

theorem downstack_assertions_hold_witness:
  "list_downstack chain_ABC ''C'' = Some (Inr [''C'', ''B'', ''A'']) \<and>
   [''C'', ''B'', ''A''] \<noteq> [] \<and> hd [''C'', ''B'', ''A''] = ''C'' \<and>
   must_NotBeEmptyf [''C'', ''B'', ''A''] ''downstack cannot be empty'' = None \<and>
   must_BeEqualf (hd [''C'', ''B'', ''A'']) ''C'' ''downstack must start with the original branch'' = None \<and>
   snd (snd (snd (downstackEditCmd_Run (ref_deps reorder_CAB) edit_cmd chain_ABC Map.empty))) \<noteq>
     Panic ''downstack cannot be empty''"
proof -
  have c: "list_downstack chain_ABC ''C'' = Some (Inr [''C'', ''B'', ''A''])"
    by (simp add: chain_ABC_def list_downstack.simps store_get_def)
  have impl: "\<forall>r' b' chain'. ListDownstack (ref_deps reorder_CAB) r' b' = Inr chain' \<longrightarrow>
      list_downstack r' b' = Some (Inr chain')"
    by (simp add: ref_deps_def split: option.splits)
  note t = downstack_assertions_hold [of chain_ABC "''C''" "[''C'', ''B'', ''A'']"
      "ref_deps reorder_CAB" edit_cmd Map.empty]
  from t c have "[''C'', ''B'', ''A''] \<noteq> [] \<and> hd [''C'', ''B'', ''A''] = ''C'' \<and>
      must_NotBeEmptyf [''C'', ''B'', ''A''] ''downstack cannot be empty'' = None \<and>
      must_BeEqualf (hd [''C'', ''B'', ''A'']) ''C'' ''downstack must start with the original branch'' = None"
    by blast
  moreover from t impl
  have "snd (snd (snd (downstackEditCmd_Run (ref_deps reorder_CAB) edit_cmd chain_ABC Map.empty))) \<noteq>
     Panic ''downstack cannot be empty''"
    by blast
  ultimately show ?thesis using c by blast
qed

text \<open>
  C10. The parser trims the white space around each line before it looks at it: a line
  of white space only is skipped; a line whose first character after the white space is
  \<open>#\<close> is skipped; and a name with white space around it is looked up, and collected,
  without it.
\<close>

theorem parser_trims_lines:
  "(white ws \<longrightarrow> parse_lines orig acc (ws # rest) = parse_lines orig acc rest) \<and>
   (white ws \<longrightarrow>
      parse_lines orig acc ((ws @ CHR ''#'' # comment) # rest) = parse_lines orig acc rest) \<and>
   (white ws \<and> white ws' \<and> name \<noteq> [] \<and> hd name \<noteq> CHR ''#'' \<and>
    \<not> (\<exists>e \<in> set space_runes. \<exists>t. name = e @ t) \<and>
    \<not> (\<exists>e \<in> set space_runes. \<exists>t. name = t @ e) \<longrightarrow>
      parse_lines orig acc ((ws @ name @ ws') # rest) =
        (if name \<in> orig then parse_lines (orig - {name}) (acc @ [name]) rest
         else Inl (Errorf ''branch %q not in original downstack, or is duplicated'' [name])))"
proof (intro conjI impI)
  assume "white ws"
  then show "parse_lines orig acc (ws # rest) = parse_lines orig acc rest"
    by (simp add: TrimSpace_white)
next
  assume "white ws"
  from TrimSpace_comment [OF this, of comment]
  show "parse_lines orig acc ((ws @ CHR ''#'' # comment) # rest) = parse_lines orig acc rest"
    by (simp add: Let_def)
next
  assume a: "white ws \<and> white ws' \<and> name \<noteq> [] \<and> hd name \<noteq> CHR ''#'' \<and>
    \<not> (\<exists>e \<in> set space_runes. \<exists>t. name = e @ t) \<and>
    \<not> (\<exists>e \<in> set space_runes. \<exists>t. name = t @ e)"
  then have "TrimSpace (ws @ name @ ws') = name"
    by (intro TrimSpace_name) simp_all
  with a show "parse_lines orig acc ((ws @ name @ ws') # rest) =
        (if name \<in> orig then parse_lines (orig - {name}) (acc @ [name]) rest
         else Inl (Errorf ''branch %q not in original downstack, or is duplicated'' [name]))"
    by (simp add: Let_def)
qed

theorem parser_trims_lines_witness:
  "white [CHR 0x20, CHR 0x09] \<and> white [CHR 0xC2, CHR 0xA0, CHR 0x0D] \<and>
   parse_lines (set [''C'', ''B'', ''A'']) [''C''] [[CHR 0x20, CHR 0x09]] = Inr [''C''] \<and>
   parse_lines (set [''C'', ''B'', ''A'']) [''C''] [[CHR 0x20, CHR 0x09] @ CHR ''#'' # '' note''] =
     Inr [''C''] \<and>
   parse_lines (set [''C'', ''B'', ''A'']) [''C'']
     [[CHR 0x20, CHR 0x09] @ ''B'' @ [CHR 0xC2, CHR 0xA0, CHR 0x0D]] = Inr [''C'', ''B'']"
proof -
  let ?ws = "[CHR 0x20, CHR 0x09]"
  let ?ws' = "[CHR 0xC2, CHR 0xA0, CHR 0x0D]"
  let ?orig = "set [''C'', ''B'', ''A'']"
  have w: "white ?ws"
    using white_rune [of "[CHR 0x20]" "[CHR 0x09]"] white_rune [of "[CHR 0x09]" "[]"] white_Nil
    by (simp add: space_runes_def)
  have w': "white ?ws'"
    using white_rune [of "[CHR 0xC2, CHR 0xA0]" "[CHR 0x0D]"] white_rune [of "[CHR 0x0D]" "[]"] white_Nil
    by (simp add: space_runes_def)
  have p: "\<not> (\<exists>e \<in> set space_runes. \<exists>t. ''B'' = e @ t)"
    by (rule rune_prefix_hd) (simp_all add: space_runes_def)
  have s: "\<not> (\<exists>e \<in> set space_runes. \<exists>t. ''B'' = t @ e)"
    by (rule rune_suffix_last) (simp_all add: space_runes_def)
  note t = parser_trims_lines [where ws = ?ws and ws' = ?ws' and name = "''B''" and orig = ?orig
      and acc = "[''C'']" and rest = "[]" and comment = "'' note''"]
  from t w have a: "parse_lines ?orig [''C''] [?ws] = Inr [''C'']"
    by simp
  from t w have b: "parse_lines ?orig [''C''] [?ws @ CHR ''#'' # '' note''] = Inr [''C'']"
    by simp
  from t [THEN conjunct2, THEN conjunct2] w w' p s
  have c: "parse_lines ?orig [''C''] [?ws @ ''B'' @ ?ws'] = Inr [''C'', ''B'']"
    by simp
  from w w' a b c show ?thesis by blast
qed

end
